theory Spec2Isabelle
  imports Main
begin

section \<open>Values shared by the two source files\<close>

text \<open>
  A rejected promise or a thrown exception is a value of \<open>js_error\<close>: \<open>TypeError\<close> is
  what reading a property of \<open>undefined\<close> throws, \<open>Rejected\<close> is any failure of an
  external call (file system, glob expansion, platform or hosting API).
\<close>

datatype js_error = TypeError string | Rejected string

text \<open>
  The texts written to the console are kept as tags with their parameters: the claims
  depend on which message is written and when, not on its wording (the literal texts
  carry pictographs outside ASCII).
\<close>

datatype console_msg =
    GlobPatternDetected string
  | FoundDirectoriesMatching nat
  | DirFoundComponents string nat
  | DirComponentsList string
  | FailedToReadDirectory string js_error
  | TotalComponentsFound nat
  | DirectPath string
  | FoundComponentsIn nat string
  | CreatedBranch string
  | CreatedComponents
  | ResolvedComponentsInCode string string
  | SyncMasterUncommittedChanges
  | BranchNotFound string
  | BranchRemoved string
  | ConfigHeading
  | ConfigJson

datatype console = Log console_msg | Warn console_msg

section \<open>Strings and POSIX paths as the JavaScript runtime computes them\<close>

text \<open>\<open>s.split(sep)\<close> for a one-character separator: always at least one part.\<close>

fun split_on :: "char \<Rightarrow> string \<Rightarrow> string list" where
  "split_on c [] = [[]]"
| "split_on c (x # xs) =
     (if x = c then [] # split_on c xs
      else (case split_on c xs of
              [] \<Rightarrow> [[x]]
            | p # ps \<Rightarrow> (x # p) # ps))"

text \<open>\<open>xs.join(sep)\<close>.\<close>

fun join_with :: "string \<Rightarrow> string list \<Rightarrow> string" where
  "join_with sep [] = []"
| "join_with sep [x] = x"
| "join_with sep (x # y # ys) = x @ sep @ join_with sep (y # ys)"

text \<open>\<open>xs.indexOf(x)\<close>: the first position of \<open>x\<close>, or \<open>-1\<close>.\<close>

fun indexOf :: "'a list \<Rightarrow> 'a \<Rightarrow> int" where
  "indexOf [] x = -1"
| "indexOf (y # ys) x =
     (if y = x then 0
      else (let i = indexOf ys x in if i = -1 then -1 else i + 1))"

definition startsWith :: "string \<Rightarrow> char \<Rightarrow> bool" where
  "startsWith s c = (case s of [] \<Rightarrow> False | x # _ \<Rightarrow> x = c)"

definition str_includes :: "string \<Rightarrow> char \<Rightarrow> bool" where
  "str_includes s c = (c \<in> set s)"

text \<open>A string in a condition: the empty string is falsy, as is \<open>undefined\<close>.\<close>

definition truthy :: "string \<Rightarrow> bool" where
  "truthy s = (s \<noteq> [])"

definition truthy_opt :: "string option \<Rightarrow> bool" where
  "truthy_opt x = (case x of None \<Rightarrow> False | Some s \<Rightarrow> truthy s)"

text \<open>
  \<open>path.normalize\<close>, \<open>path.join\<close>, \<open>path.resolve\<close>, \<open>path.basename\<close> and
  \<open>path.dirname\<close> of the POSIX variant of the runtime's path module, segment by segment:
  empty and \<open>.\<close> segments are dropped, \<open>..\<close> removes the segment before it, or is kept
  when nothing is left to remove and the path is relative.
\<close>

definition norm_step :: "bool \<Rightarrow> string list \<Rightarrow> string \<Rightarrow> string list" where
  "norm_step allowAboveRoot res seg =
     (if seg = [] \<or> seg = ''.'' then res
      else if seg = ''..'' then
        (if res \<noteq> [] \<and> last res \<noteq> ''..'' then butlast res
         else if allowAboveRoot then res @ [''..'']
         else res)
      else res @ [seg])"

definition normalizeString :: "string \<Rightarrow> bool \<Rightarrow> string" where
  "normalizeString p allowAboveRoot =
     join_with ''/'' (foldl (norm_step allowAboveRoot) [] (split_on CHR ''/'' p))"

definition path_normalize :: "string \<Rightarrow> string" where
  "path_normalize p =
     (if p = [] then ''.''
      else
        (let isAbsolute = (hd p = CHR ''/'');
             trailingSeparator = (last p = CHR ''/'');
             q = normalizeString p (\<not> isAbsolute)
         in if q = [] then (if isAbsolute then ''/'' else if trailingSeparator then ''./'' else ''.'')
            else (if isAbsolute then ''/'' else []) @ q @ (if trailingSeparator then ''/'' else [])))"

definition path_join :: "string list \<Rightarrow> string" where
  "path_join args =
     (let joined = join_with ''/'' (filter (\<lambda>a. a \<noteq> []) args)
      in if joined = [] then ''.'' else path_normalize joined)"

fun resolve_loop :: "string list \<Rightarrow> string \<times> bool \<Rightarrow> string \<times> bool" where
  "resolve_loop [] acc = acc"
| "resolve_loop (p # ps) (resolvedPath, resolvedAbsolute) =
     (if resolvedAbsolute then (resolvedPath, resolvedAbsolute)
      else if p = [] then resolve_loop ps (resolvedPath, resolvedAbsolute)
      else resolve_loop ps (p @ ''/'' @ resolvedPath, hd p = CHR ''/''))"

text \<open>
  \<open>path.resolve(...args)\<close> reads its arguments from the right until the path is
  absolute, and the working directory after them.
\<close>

definition path_resolve :: "string \<Rightarrow> string list \<Rightarrow> string" where
  "path_resolve processCwd args =
     (case resolve_loop (rev args @ [processCwd]) ([], False) of
        (resolvedPath, resolvedAbsolute) \<Rightarrow>
          (let q = normalizeString resolvedPath (\<not> resolvedAbsolute)
           in if resolvedAbsolute then ''/'' @ q
              else if q \<noteq> [] then q else ''.''))"

definition strip_trailing_slashes :: "string \<Rightarrow> string" where
  "strip_trailing_slashes s = rev (dropWhile (\<lambda>c. c = CHR ''/'') (rev s))"

definition path_basename :: "string \<Rightarrow> string" where
  "path_basename p =
     rev (takeWhile (\<lambda>c. c \<noteq> CHR ''/'') (rev (strip_trailing_slashes p)))"

definition path_dirname :: "string \<Rightarrow> string" where
  "path_dirname p =
     (if p = [] then ''.''
      else
        (let hasRoot = (hd p = CHR ''/'');
             t = strip_trailing_slashes (tl p)
         in if CHR ''/'' \<notin> set t then (if hasRoot then ''/'' else ''.'')
            else
              (let endIndex = length t - length (takeWhile (\<lambda>c. c \<noteq> CHR ''/'') (rev t))
               in if hasRoot \<and> endIndex = 1 then ''//'' else take endIndex p)))"

section \<open>Resource discovery (utils.ts)\<close>

record ComponentInCode =
  name :: string
  source :: string
  fileMask :: string

text \<open>An entry of a directory listing read with \<open>withFileTypes\<close>.\<close>

record dirent =
  dirent_name :: string
  isDirectory :: bool

text \<open>
  What the file system answers during one run: the working directory, the expansion of a
  glob pattern (relative paths, with the dependency and version-control directories
  ignored) and the listing of a directory. Either call may be rejected.
\<close>

record fs_env =
  cwd :: string
  glob :: "string \<Rightarrow> js_error + string list"
  readdir :: "string \<Rightarrow> js_error + dirent list"

definition isGlobPattern :: "string \<Rightarrow> bool" where
  "isGlobPattern keysetsPath =
     (str_includes keysetsPath CHR ''*'' \<or> str_includes keysetsPath CHR ''?'' \<or> str_includes keysetsPath CHR ''['')"

text \<open>The filter of both branches: directories whose name does not start with a dot.\<close>

definition visible_dir :: "dirent \<Rightarrow> bool" where
  "visible_dir d = (isDirectory d \<and> \<not> startsWith (dirent_name d) CHR ''.'')"

text \<open>
  The prefix of a glob match: the segment after the first segment \<open>projects\<close> when there
  is one, else the segment before the last, else the base name of the parent directory.
\<close>

definition parentDirName :: "string \<Rightarrow> string" where
  "parentDirName dir =
     (let pathParts = split_on CHR ''/'' dir;
          projectsIndex = indexOf pathParts ''projects''
      in if projectsIndex \<noteq> -1 \<and> projectsIndex + 1 < int (length pathParts)
         then pathParts ! nat (projectsIndex + 1)
         else if 2 \<le> length pathParts \<and> truthy (pathParts ! (length pathParts - 2))
         then pathParts ! (length pathParts - 2)
         else path_basename (path_dirname dir))"

definition dirComponents :: "string \<Rightarrow> string \<Rightarrow> dirent list \<Rightarrow> ComponentInCode list" where
  "dirComponents dir mainLanguage dirents =
     map (\<lambda>d. \<lparr> name = parentDirName dir @ ''_'' @ dirent_name d,
                source = path_join [dir, dirent_name d, mainLanguage @ ''.json''],
                fileMask = path_join [dir, dirent_name d, ''*.json''] \<rparr>)
         (filter visible_dir dirents)"

text \<open>
  The loop over the matched directories. The body is a \<open>try\<close> block whose only call that
  can fail is the directory read; the \<open>catch\<close> writes a warning and the loop goes on.
\<close>

fun glob_loop ::
  "fs_env \<Rightarrow> string \<Rightarrow> string list \<Rightarrow> ComponentInCode list \<times> console list
     \<Rightarrow> ComponentInCode list \<times> console list" where
  "glob_loop env mainLanguage [] acc = acc"
| "glob_loop env mainLanguage (dir # dirs) (components, out) =
     (case readdir env (path_resolve (cwd env) [cwd env, dir]) of
        Inl err \<Rightarrow>
          glob_loop env mainLanguage dirs
            (components, out @ [Warn (FailedToReadDirectory dir err)])
      | Inr dirents \<Rightarrow>
          (let cs = dirComponents dir mainLanguage dirents
           in glob_loop env mainLanguage dirs
                (components @ cs,
                 out @ [Log (DirFoundComponents dir (length cs)),
                        Log (DirComponentsList (join_with '', '' (map name cs)))])))"

definition directComponents :: "string \<Rightarrow> string \<Rightarrow> dirent list \<Rightarrow> ComponentInCode list" where
  "directComponents keysetsPath mainLanguage dirents =
     map (\<lambda>d. \<lparr> name = dirent_name d,
                source = path_join [keysetsPath, dirent_name d, mainLanguage @ ''.json''],
                fileMask = path_join [keysetsPath, dirent_name d, ''*.json''] \<rparr>)
         (filter visible_dir dirents)"

text \<open>
  \<open>resolveComponents\<close> returns the components, or the error it rejects with, and what it
  wrote to the console on the way.
\<close>

definition resolveComponents ::
  "fs_env \<Rightarrow> string \<Rightarrow> string \<Rightarrow> (js_error + ComponentInCode list) \<times> console list" where
  "resolveComponents env keysetsPath mainLanguage =
     (if isGlobPattern keysetsPath then
        (case glob env keysetsPath of
           Inl err \<Rightarrow> (Inl err, [Log (GlobPatternDetected keysetsPath)])
         | Inr matchedDirs \<Rightarrow>
             (case glob_loop env mainLanguage matchedDirs
                     ([], [Log (GlobPatternDetected keysetsPath),
                           Log (FoundDirectoriesMatching (length matchedDirs))]) of
                (components, out) \<Rightarrow>
                  (Inr components, out @ [Log (TotalComponentsFound (length components))])))
      else
        (case readdir env (path_resolve (cwd env) [cwd env, keysetsPath]) of
           Inl err \<Rightarrow> (Inl err, [Log (DirectPath keysetsPath)])
         | Inr dirents \<Rightarrow>
             (let components = directComponents keysetsPath mainLanguage dirents
              in (Inr components,
                  [Log (DirectPath keysetsPath),
                   Log (FoundComponentsIn (length components) keysetsPath)]))))"


section \<open>The platform, the hosting service and the run (index.ts)\<close>

text \<open>
  The configuration of a run; only the fields the handlers read. The pull-request number
  and author are absent in trunk mode.
\<close>

datatype ActionMode = SYNC_MASTER | VALIDATE_PULL_REQUEST | REMOVE_BRANCH

record Configuration =
  mode :: ActionMode
  branchName :: string
  masterBranch :: string
  keysetsPath :: string
  mainLanguage :: string
  gitRepo :: string
  project :: string
  githubToken :: string
  pullRequestNumber :: "nat option"
  pullRequestAuthor :: "string option"

record Category =
  cat_id :: nat
  cat_slug :: string

record CreatedCategory = Category +
  wasRecentlyCreated :: bool

record WeblateComponent =
  c_name :: string
  c_slug :: string
  filemask :: string
  template :: string
  linked_component :: "string option"

datatype ApplyAddons = AddonsFor string | AddonsOff

text \<open>The argument of \<open>createComponent\<close>; \<open>None\<close> is a property left out.\<close>

record CreateComponentArgs =
  arg_name :: string
  arg_fileMask :: string
  arg_categoryId :: nat
  arg_categorySlug :: string
  arg_repo :: string
  arg_branch :: "string option"
  arg_source :: string
  arg_repoForUpdates :: "string option"
  arg_applyAddons :: "ApplyAddons option"
  arg_pullRequestAuthor :: "string option"
  arg_pullRequestNumber :: "nat option"
  arg_updateIfExist :: "bool option"

record RepositoryErrors =
  mergeFailureError :: "string option"
  needsCommitError :: "string option"
  needsPushError :: "string option"

text \<open>
  The platform client, the helpers of the logic module and the client of the hosting
  service (its construction from the token, and its comment call) are parameters of the
  handlers. \<open>'p\<close> is the state of the outside world; a call that changes it returns the
  new state, a query only reads it. Every call may be rejected.
\<close>

record 'p services =
  createCategoryForBranch :: "string \<Rightarrow> 'p \<Rightarrow> (js_error + CreatedCategory) \<times> 'p"
  findCategoryForBranch :: "string \<Rightarrow> 'p \<Rightarrow> js_error + Category option"
  removeCategory :: "nat \<Rightarrow> 'p \<Rightarrow> (js_error + unit) \<times> 'p"
  createComponent :: "CreateComponentArgs \<Rightarrow> 'p \<Rightarrow> (js_error + WeblateComponent) \<times> 'p"
  getComponentsInCategory :: "nat \<Rightarrow> 'p \<Rightarrow> js_error + WeblateComponent list"
  getMainComponentInCategory :: "nat \<Rightarrow> 'p \<Rightarrow> js_error + WeblateComponent option"
  waitComponentsTasks :: "string list \<Rightarrow> string \<Rightarrow> 'p \<Rightarrow> (js_error + unit) \<times> 'p"
  pullComponentRemoteChanges :: "string \<Rightarrow> string \<Rightarrow> 'p \<Rightarrow> (js_error + unit) \<times> 'p"
  pullRemoteChanges :: "Configuration \<Rightarrow> nat \<Rightarrow> string \<Rightarrow> 'p \<Rightarrow> (js_error + string option) \<times> 'p"
  removeMissingComponents ::
    "Configuration \<Rightarrow> nat \<Rightarrow> string \<Rightarrow> ComponentInCode list \<Rightarrow> 'p \<Rightarrow> (js_error + unit) \<times> 'p"
  getComponentRepositoryErrors ::
    "string \<Rightarrow> string \<Rightarrow> Configuration \<Rightarrow> 'p \<Rightarrow> js_error + RepositoryErrors"
  getUntranslatedComponentsError ::
    "WeblateComponent list \<Rightarrow> string \<Rightarrow> 'p \<Rightarrow> js_error + string option"
  getOctokit :: "string \<Rightarrow> js_error + unit"
  createComment :: "nat option \<Rightarrow> string \<Rightarrow> 'p \<Rightarrow> (js_error + unit) \<times> 'p"

text \<open>
  What a run does, in order: the external calls with their arguments, the marking of the
  run as failed and the console output.
\<close>

datatype event =
    CreateCategoryForBranch string
  | FindCategoryForBranch string
  | RemoveCategory nat
  | CreateComponent CreateComponentArgs
  | GetComponentsInCategory nat
  | GetMainComponentInCategory nat
  | WaitComponentsTasks "string list" string
  | PullComponentRemoteChanges string string
  | PullRemoteChanges nat string
  | RemoveMissingComponents nat string "ComponentInCode list"
  | GetComponentRepositoryErrors string string
  | GetUntranslatedComponentsError "WeblateComponent list" string
  | CreateComment "nat option" string
  | SetFailed string
  | Console console

text \<open>
  A step of a handler starts in a state of the outside world and yields its result (or
  the error it rejects with), the new state, and the events it issued, each with the
  state of the outside world at the moment it was issued.
\<close>

type_synonym 'p entry = "event \<times> 'p"

type_synonym ('p, 'a) io = "'p \<Rightarrow> (js_error + 'a) \<times> 'p \<times> 'p entry list"

definition await :: "('p, 'a) io \<Rightarrow> ('a \<Rightarrow> ('p, 'b) io) \<Rightarrow> ('p, 'b) io" where
  "await m k p =
     (case m p of
        (Inl e, p', t) \<Rightarrow> (Inl e, p', t)
      | (Inr x, p', t) \<Rightarrow> (case k x p' of (r, p'', t') \<Rightarrow> (r, p'', t @ t')))"

definition resolved :: "'a \<Rightarrow> ('p, 'a) io" where
  "resolved x p = (Inr x, p, [])"

definition throw :: "js_error \<Rightarrow> ('p, 'a) io" where
  "throw e p = (Inl e, p, [])"

definition emit :: "event \<Rightarrow> ('p, unit) io" where
  "emit ev p = (Inr (), p, [(ev, p)])"

definition call :: "event \<Rightarrow> ('p \<Rightarrow> (js_error + 'a) \<times> 'p) \<Rightarrow> ('p, 'a) io" where
  "call ev f p = (case f p of (r, p') \<Rightarrow> (r, p', [(ev, p)]))"

definition ask :: "event \<Rightarrow> ('p \<Rightarrow> js_error + 'a) \<Rightarrow> ('p, 'a) io" where
  "ask ev f p = (f p, p, [(ev, p)])"

text \<open>
  \<open>Promise.all\<close> over calls that were all started, in list order: every call takes
  effect, and the result is the first rejection if there is one. The interleaving of the
  requests on the wire is not modelled.
\<close>

fun promise_all :: "('p, 'a) io list \<Rightarrow> ('p, 'a list) io" where
  "promise_all [] p = (Inr [], p, [])"
| "promise_all (m # ms) p =
     (case m p of
        (r, p', t) \<Rightarrow>
          (case promise_all ms p' of
             (rs, p'', t') \<Rightarrow>
               ((case r of
                   Inl e \<Rightarrow> Inl e
                 | Inr x \<Rightarrow> (case rs of Inl e \<Rightarrow> Inl e | Inr xs \<Rightarrow> Inr (x # xs))),
                p'', t @ t')))"

definition setFailed :: "string \<Rightarrow> ('p, unit) io" where
  "setFailed message = emit (SetFailed message)"

definition console_log :: "console_msg \<Rightarrow> ('p, unit) io" where
  "console_log m = emit (Console (Log m))"

definition console_warn :: "console_msg \<Rightarrow> ('p, unit) io" where
  "console_warn m = emit (Console (Warn m))"

text \<open>Discovery inside a handler: its console output joins the events.\<close>

definition discover :: "fs_env \<Rightarrow> Configuration \<Rightarrow> ('p, ComponentInCode list) io" where
  "discover env config p =
     (case resolveComponents env (keysetsPath config) (mainLanguage config) of
        (r, out) \<Rightarrow> (r, p, map (\<lambda>c. (Console c, p)) out))"

text \<open>A number in a template string; an absent number prints as \<open>undefined\<close>.\<close>

definition digit_char :: "nat \<Rightarrow> char" where
  "digit_char d = ''0123456789'' ! d"

fun string_of_nat :: "nat \<Rightarrow> string" where
  "string_of_nat n =
     (if n < 10 then [digit_char n] else string_of_nat (n div 10) @ [digit_char (n mod 10)])"

declare string_of_nat.simps [simp del]

definition number_text :: "nat option \<Rightarrow> string" where
  "number_text n = (case n of None \<Rightarrow> ''undefined'' | Some k \<Rightarrow> string_of_nat k)"

text \<open>The value of a string that a condition has found truthy.\<close>

definition text_of :: "string option \<Rightarrow> string" where
  "text_of x = (case x of None \<Rightarrow> [] | Some s \<Rightarrow> s)"

definition pr_branch :: "Configuration \<Rightarrow> string" where
  "pr_branch config = branchName config @ ''__'' @ number_text (pullRequestNumber config)"

definition pr_name :: "Configuration \<Rightarrow> string \<Rightarrow> string" where
  "pr_name config n = n @ ''__'' @ number_text (pullRequestNumber config)"

definition weblate_repo :: "Configuration \<Rightarrow> string \<Rightarrow> string \<Rightarrow> string" where
  "weblate_repo config categorySlug componentSlug =
     ''weblate://'' @ project config @ ''/'' @ categorySlug @ ''/'' @ componentSlug"

text \<open>Reading \<open>firstComponent.name\<close> when the destructured list was empty.\<close>

definition undefined_first_component :: js_error where
  "undefined_first_component = TypeError ''firstComponent is undefined''"

subsection \<open>sync-trunk\<close>

definition syncMaster_first_args ::
  "Configuration \<Rightarrow> CreatedCategory \<Rightarrow> ComponentInCode \<Rightarrow> CreateComponentArgs" where
  "syncMaster_first_args config category firstComponent =
     \<lparr> arg_name = name firstComponent,
       arg_fileMask = fileMask firstComponent,
       arg_categoryId = cat_id category,
       arg_categorySlug = cat_slug category,
       arg_repo = gitRepo config,
       arg_branch = Some (branchName config),
       arg_source = source firstComponent,
       arg_repoForUpdates = Some (gitRepo config),
       arg_applyAddons = Some (AddonsFor ''main-branch''),
       arg_pullRequestAuthor = None,
       arg_pullRequestNumber = None,
       arg_updateIfExist = None \<rparr>"

definition syncMaster_other_args ::
  "Configuration \<Rightarrow> CreatedCategory \<Rightarrow> WeblateComponent \<Rightarrow> ComponentInCode \<Rightarrow> CreateComponentArgs" where
  "syncMaster_other_args config category mainComponent component =
     \<lparr> arg_name = name component,
       arg_fileMask = fileMask component,
       arg_categoryId = cat_id category,
       arg_categorySlug = cat_slug category,
       arg_repo = weblate_repo config (cat_slug category) (c_slug mainComponent),
       arg_branch = None,
       arg_source = source component,
       arg_repoForUpdates = None,
       arg_applyAddons = Some (AddonsFor ''main-branch''),
       arg_pullRequestAuthor = None,
       arg_pullRequestNumber = None,
       arg_updateIfExist = None \<rparr>"

definition syncMaster_unpushed_message :: string where
  "syncMaster_unpushed_message =
     ''SYNC_MASTER: Weblate main branch has unpushed commits. '' @
     ''This typically happens when a source string was changed and Weblate '' @
     ''auto-committed formatting or flag changes via an addon (e.g. weblate.json.customize). '' @
     ''These commits must be pushed to the repository before PR validation will work correctly. '' @
     ''Push Weblate changes manually or trigger a push via the Weblate UI.''"

text \<open>
  The end of \<open>syncMaster\<close>, from the answer of the repository check on: a merge failure
  marks the run failed and returns; uncommitted changes are a warning; unpushed commits
  mark the run failed.
\<close>

definition syncMaster_health :: "RepositoryErrors \<Rightarrow> ('p, unit) io" where
  "syncMaster_health repositoryErrors =
     (if truthy_opt (mergeFailureError repositoryErrors)
      then setFailed (text_of (mergeFailureError repositoryErrors))
      else
        await (if truthy_opt (needsCommitError repositoryErrors)
               then console_warn SyncMasterUncommittedChanges else resolved ())
          (\<lambda>_. if truthy_opt (needsPushError repositoryErrors)
                then setFailed syncMaster_unpushed_message else resolved ()))"

text \<open>
  \<open>syncMaster\<close> from discovery on. The list of discovered components is destructured
  into the first and the others; the first is \<open>undefined\<close> when the list is empty, and
  building the argument of the first creation call then throws.
\<close>

definition syncMaster_reconcile ::
  "'p services \<Rightarrow> fs_env \<Rightarrow> Configuration \<Rightarrow> CreatedCategory \<Rightarrow> ('p, unit) io" where
  "syncMaster_reconcile weblate env config category =
     await (discover env config) (\<lambda>componentsInCode.
       case componentsInCode of
         [] \<Rightarrow> throw undefined_first_component
       | firstComponent # otherComponents \<Rightarrow>
     await (call (CreateComponent (syncMaster_first_args config category firstComponent))
              (createComponent weblate (syncMaster_first_args config category firstComponent)))
       (\<lambda>firstWeblateComponent.
     await (ask (GetMainComponentInCategory (cat_id category))
              (getMainComponentInCategory weblate (cat_id category)))
       (\<lambda>found.
     (let mainComponent = (case found of None \<Rightarrow> firstWeblateComponent | Some c \<Rightarrow> c) in
     await (promise_all
              (map (\<lambda>component.
                      call (CreateComponent (syncMaster_other_args config category mainComponent component))
                        (createComponent weblate
                           (syncMaster_other_args config category mainComponent component)))
                 otherComponents))
       (\<lambda>_.
     await (ask (GetComponentsInCategory (cat_id category))
              (getComponentsInCategory weblate (cat_id category)))
       (\<lambda>allWeblateComponents.
     await (call (WaitComponentsTasks (map c_name allWeblateComponents) (cat_slug category))
              (waitComponentsTasks weblate (map c_name allWeblateComponents) (cat_slug category)))
       (\<lambda>_.
     await (call (RemoveMissingComponents (cat_id category) (cat_slug category) componentsInCode)
              (removeMissingComponents weblate config (cat_id category) (cat_slug category)
                 componentsInCode))
       (\<lambda>_.
     await (ask (GetComponentRepositoryErrors (c_name mainComponent) (cat_slug category))
              (getComponentRepositoryErrors weblate (c_name mainComponent) (cat_slug category) config))
       syncMaster_health))))))))"

definition syncMaster :: "'p services \<Rightarrow> fs_env \<Rightarrow> Configuration \<Rightarrow> ('p, unit) io" where
  "syncMaster weblate env config =
     await (call (CreateCategoryForBranch (branchName config))
              (createCategoryForBranch weblate (branchName config)))
       (\<lambda>category.
          if \<not> wasRecentlyCreated category then
            await (call (PullRemoteChanges (cat_id category) (cat_slug category))
                     (pullRemoteChanges weblate config (cat_id category) (cat_slug category)))
              (\<lambda>mergeFailureMessage.
                 if truthy_opt mergeFailureMessage
                 then setFailed (text_of mergeFailureMessage)
                 else syncMaster_reconcile weblate env config category)
          else syncMaster_reconcile weblate env config category)"


subsection \<open>validate-pull-request\<close>

text \<open>The pattern of every failure branch but one: comment on the pull request, then fail.\<close>

definition comment_and_fail :: "'p services \<Rightarrow> Configuration \<Rightarrow> string \<Rightarrow> ('p, unit) io" where
  "comment_and_fail weblate config body =
     await (call (CreateComment (pullRequestNumber config) body)
              (createComment weblate (pullRequestNumber config) body))
       (\<lambda>_. setFailed body)"

definition not_found_message :: "Configuration \<Rightarrow> string" where
  "not_found_message config =
     ''Not found category for branch '' @ [CHR 0x27] @ masterBranch config @ [CHR 0x27]"

text \<open>
  The main component of the trunk category: the first without a link, else the first;
  \<open>undefined\<close> when the category has no component.
\<close>

definition mainMasterComponent :: "WeblateComponent list \<Rightarrow> WeblateComponent option" where
  "mainMasterComponent masterComponents =
     (case find (\<lambda>c. \<not> truthy_opt (linked_component c)) masterComponents of
        Some c \<Rightarrow> Some c
      | None \<Rightarrow> (case masterComponents of [] \<Rightarrow> None | c # _ \<Rightarrow> Some c))"

definition copy_args ::
  "Configuration \<Rightarrow> CreatedCategory \<Rightarrow> Category \<Rightarrow> WeblateComponent \<Rightarrow> WeblateComponent
     \<Rightarrow> CreateComponentArgs" where
  "copy_args config category masterCategory main component =
     \<lparr> arg_name = pr_name config (c_name component),
       arg_fileMask = filemask component,
       arg_categoryId = cat_id category,
       arg_categorySlug = cat_slug category,
       arg_repo = weblate_repo config (cat_slug masterCategory) (c_slug main),
       arg_branch = None,
       arg_source = template component,
       arg_repoForUpdates = None,
       arg_applyAddons = Some AddonsOff,
       arg_pullRequestAuthor = pullRequestAuthor config,
       arg_pullRequestNumber = pullRequestNumber config,
       arg_updateIfExist = None \<rparr>"

definition validate_first_args ::
  "Configuration \<Rightarrow> CreatedCategory \<Rightarrow> ComponentInCode \<Rightarrow> CreateComponentArgs" where
  "validate_first_args config category firstComponent =
     \<lparr> arg_name = pr_name config (name firstComponent),
       arg_fileMask = fileMask firstComponent,
       arg_categoryId = cat_id category,
       arg_categorySlug = cat_slug category,
       arg_repo = gitRepo config,
       arg_branch = Some (branchName config),
       arg_source = source firstComponent,
       arg_repoForUpdates = Some (gitRepo config),
       arg_applyAddons = None,
       arg_pullRequestAuthor = pullRequestAuthor config,
       arg_pullRequestNumber = pullRequestNumber config,
       arg_updateIfExist = Some (wasRecentlyCreated category) \<rparr>"

definition validate_other_args ::
  "Configuration \<Rightarrow> CreatedCategory \<Rightarrow> WeblateComponent \<Rightarrow> ComponentInCode \<Rightarrow> CreateComponentArgs" where
  "validate_other_args config category firstWeblateComponent component =
     \<lparr> arg_name = pr_name config (name component),
       arg_fileMask = fileMask component,
       arg_categoryId = cat_id category,
       arg_categorySlug = cat_slug category,
       arg_repo = weblate_repo config (cat_slug category) (c_slug firstWeblateComponent),
       arg_branch = None,
       arg_source = source component,
       arg_repoForUpdates = None,
       arg_applyAddons = None,
       arg_pullRequestAuthor = pullRequestAuthor config,
       arg_pullRequestNumber = pullRequestNumber config,
       arg_updateIfExist = Some (wasRecentlyCreated category) \<rparr>"

text \<open>
  The end of \<open>validatePullRequest\<close>, from the answer of the repository check on: each of
  the three conditions, in this order, comments on the pull request, marks the run failed
  and returns; then the translation check does the same.
\<close>

definition validatePullRequest_health ::
  "'p services \<Rightarrow> Configuration \<Rightarrow> CreatedCategory \<Rightarrow> WeblateComponent list
     \<Rightarrow> RepositoryErrors \<Rightarrow> ('p, unit) io" where
  "validatePullRequest_health weblate config category weblateComponents repositoryErrors =
     (if truthy_opt (mergeFailureError repositoryErrors)
      then comment_and_fail weblate config (text_of (mergeFailureError repositoryErrors))
      else if truthy_opt (needsCommitError repositoryErrors)
      then comment_and_fail weblate config (text_of (needsCommitError repositoryErrors))
      else if truthy_opt (needsPushError repositoryErrors)
      then comment_and_fail weblate config (text_of (needsPushError repositoryErrors))
      else
        await (ask (GetUntranslatedComponentsError weblateComponents (cat_slug category))
                 (getUntranslatedComponentsError weblate weblateComponents (cat_slug category)))
          (\<lambda>untranslatedComponentsError.
             if truthy_opt untranslatedComponentsError
             then comment_and_fail weblate config (text_of untranslatedComponentsError)
             else resolved ()))"

text \<open>
  \<open>validatePullRequest\<close> from discovery on. The message about the resolved components is
  written before the first component is read.
\<close>

definition validatePullRequest_reconcile ::
  "'p services \<Rightarrow> fs_env \<Rightarrow> Configuration \<Rightarrow> CreatedCategory \<Rightarrow> ('p, unit) io" where
  "validatePullRequest_reconcile weblate env config category =
     await (discover env config) (\<lambda>componentsInCode.
     await (console_log (ResolvedComponentsInCode (keysetsPath config) (mainLanguage config)))
       (\<lambda>_.
       case componentsInCode of
         [] \<Rightarrow> throw undefined_first_component
       | firstComponent # otherComponents \<Rightarrow>
     await (call (CreateComponent (validate_first_args config category firstComponent))
              (createComponent weblate (validate_first_args config category firstComponent)))
       (\<lambda>firstWeblateComponent.
     await (console_log CreatedComponents) (\<lambda>_.
     await (promise_all
              (map (\<lambda>component.
                      call (CreateComponent
                              (validate_other_args config category firstWeblateComponent component))
                        (createComponent weblate
                           (validate_other_args config category firstWeblateComponent component)))
                 otherComponents))
       (\<lambda>otherWeblateComponents.
     (let weblateComponents = firstWeblateComponent # otherWeblateComponents in
     await (if \<not> wasRecentlyCreated category
            then call (PullComponentRemoteChanges (c_name firstWeblateComponent) (cat_slug category))
                   (pullComponentRemoteChanges weblate (c_name firstWeblateComponent)
                      (cat_slug category))
            else resolved ())
       (\<lambda>_.
     await (call (WaitComponentsTasks (map c_name weblateComponents) (cat_slug category))
              (waitComponentsTasks weblate (map c_name weblateComponents) (cat_slug category)))
       (\<lambda>_.
     await (call (RemoveMissingComponents (cat_id category) (cat_slug category) componentsInCode)
              (removeMissingComponents weblate config (cat_id category) (cat_slug category)
                 componentsInCode))
       (\<lambda>_.
     await (ask (GetComponentRepositoryErrors (c_name firstWeblateComponent) (cat_slug category))
              (getComponentRepositoryErrors weblate (c_name firstWeblateComponent)
                 (cat_slug category) config))
       (validatePullRequest_health weblate config category weblateComponents))))))))))"

text \<open>
  The copy of the trunk category into a category that this run created. The main trunk
  component is read inside the callback of the map, so only when there is a component.
\<close>

definition validatePullRequest_copy ::
  "'p services \<Rightarrow> Configuration \<Rightarrow> CreatedCategory \<Rightarrow> Category \<Rightarrow> ('p, unit) io" where
  "validatePullRequest_copy weblate config category masterCategory =
     await (ask (GetComponentsInCategory (cat_id masterCategory))
              (getComponentsInCategory weblate (cat_id masterCategory)))
       (\<lambda>masterComponents.
     await (promise_all
              (map (\<lambda>component.
                      case mainMasterComponent masterComponents of
                        None \<Rightarrow> throw (TypeError ''mainMasterComponent is undefined'')
                      | Some main \<Rightarrow>
                          call (CreateComponent (copy_args config category masterCategory main component))
                            (createComponent weblate
                               (copy_args config category masterCategory main component)))
                 masterComponents))
       (\<lambda>createdComponents.
     await (console_log CreatedComponents) (\<lambda>_.
     call (WaitComponentsTasks (map c_name createdComponents) (cat_slug category))
       (waitComponentsTasks weblate (map c_name createdComponents) (cat_slug category)))))"

definition validatePullRequest :: "'p services \<Rightarrow> fs_env \<Rightarrow> Configuration \<Rightarrow> ('p, unit) io" where
  "validatePullRequest weblate env config =
     (case getOctokit weblate (githubToken config) of
        Inl err \<Rightarrow> throw err
      | Inr octokit \<Rightarrow>
     await (call (CreateCategoryForBranch (pr_branch config))
              (createCategoryForBranch weblate (pr_branch config)))
       (\<lambda>category.
     await (console_log (CreatedBranch (pr_branch config))) (\<lambda>_.
       if wasRecentlyCreated category then
         await (ask (FindCategoryForBranch (masterBranch config))
                  (findCategoryForBranch weblate (masterBranch config)))
           (\<lambda>masterCategory.
              case masterCategory of
                None \<Rightarrow> setFailed (not_found_message config)
              | Some found \<Rightarrow>
                  await (validatePullRequest_copy weblate config category found)
                    (\<lambda>_. validatePullRequest_reconcile weblate env config category))
       else
         await (call (PullRemoteChanges (cat_id category) (cat_slug category))
                  (pullRemoteChanges weblate config (cat_id category) (cat_slug category)))
           (\<lambda>mergeFailureMessage.
              if truthy_opt mergeFailureMessage
              then comment_and_fail weblate config (text_of mergeFailureMessage)
              else validatePullRequest_reconcile weblate env config category))))"

subsection \<open>remove-branch, and the dispatch\<close>

definition removeBranch :: "'p services \<Rightarrow> fs_env \<Rightarrow> Configuration \<Rightarrow> ('p, unit) io" where
  "removeBranch weblate env config =
     await (ask (FindCategoryForBranch (pr_branch config))
              (findCategoryForBranch weblate (pr_branch config)))
       (\<lambda>category.
          case category of
            None \<Rightarrow> console_log (BranchNotFound (pr_branch config))
          | Some found \<Rightarrow>
              await (call (RemoveCategory (cat_id found)) (removeCategory weblate (cat_id found)))
                (\<lambda>_. console_log (BranchRemoved (pr_branch config))))"

fun modeToHandler :: "ActionMode \<Rightarrow> 'p services \<Rightarrow> fs_env \<Rightarrow> Configuration \<Rightarrow> ('p, unit) io" where
  "modeToHandler SYNC_MASTER = syncMaster"
| "modeToHandler VALIDATE_PULL_REQUEST = validatePullRequest"
| "modeToHandler REMOVE_BRANCH = removeBranch"

text \<open>
  One run: the configuration is printed, then the handler of the mode runs. The result
  \<open>Inl\<close> is a rejection nobody catches.
\<close>

definition run :: "'p services \<Rightarrow> fs_env \<Rightarrow> Configuration \<Rightarrow> ('p, unit) io" where
  "run weblate env config =
     await (console_log ConfigHeading) (\<lambda>_.
     await (console_log ConfigJson) (\<lambda>_.
     modeToHandler (mode config) weblate env config))"


section \<open>Notions used to state the properties\<close>

text \<open>The listing of a directory as \<open>resolveComponents\<close> reads it.\<close>

definition listing :: "fs_env \<Rightarrow> string \<Rightarrow> js_error + dirent list" where
  "listing env dir = readdir env (path_resolve (cwd env) [cwd env, dir])"

text \<open>What one matched directory adds to the result and to the console.\<close>

definition dir_groups :: "fs_env \<Rightarrow> string \<Rightarrow> string \<Rightarrow> ComponentInCode list" where
  "dir_groups env language dir =
     (case listing env dir of
        Inl err \<Rightarrow> []
      | Inr dirents \<Rightarrow> dirComponents dir language dirents)"

definition dir_console :: "fs_env \<Rightarrow> string \<Rightarrow> string \<Rightarrow> console list" where
  "dir_console env language dir =
     (case listing env dir of
        Inl err \<Rightarrow> [Warn (FailedToReadDirectory dir err)]
      | Inr dirents \<Rightarrow>
          [Log (DirFoundComponents dir (length (dirComponents dir language dirents))),
           Log (DirComponentsList
                  (join_with '', '' (map name (dirComponents dir language dirents))))])"

fun is_warning :: "console \<Rightarrow> bool" where
  "is_warning (Warn m) = True"
| "is_warning (Log m) = False"

text \<open>The messages that discovery writes.\<close>

fun is_discovery_console :: "console \<Rightarrow> bool" where
  "is_discovery_console (Log (GlobPatternDetected x)) = True"
| "is_discovery_console (Log (FoundDirectoriesMatching n)) = True"
| "is_discovery_console (Log (DirFoundComponents x n)) = True"
| "is_discovery_console (Log (DirComponentsList x)) = True"
| "is_discovery_console (Warn (FailedToReadDirectory x e)) = True"
| "is_discovery_console (Log (TotalComponentsFound n)) = True"
| "is_discovery_console (Log (DirectPath x)) = True"
| "is_discovery_console (Log (FoundComponentsIn n x)) = True"
| "is_discovery_console _ = False"

text \<open>
  The prefix of a glob match in the words of the specification: the segment right after
  the anchor segment when the anchor is there and is not the last segment, else the
  directory's own parent segment (the current directory when the path has one segment).
\<close>

fun after_anchor :: "string \<Rightarrow> string list \<Rightarrow> string option" where
  "after_anchor anchor [] = None"
| "after_anchor anchor [x] = None"
| "after_anchor anchor (x # y # ys) =
     (if x = anchor then Some y else after_anchor anchor (y # ys))"

definition parentSegment :: "string \<Rightarrow> string" where
  "parentSegment dir =
     (let parts = split_on CHR ''/'' dir
      in case after_anchor ''projects'' parts of
           Some s \<Rightarrow> s
         | None \<Rightarrow> if 2 \<le> length parts then last (butlast parts) else ''.'')"

text \<open>
  Paths on which \<open>path.join\<close> is plain concatenation with slashes: a segment is clean
  when it is not empty, has no slash and is neither \<open>.\<close> nor \<open>..\<close>; a path is plain when
  its segments (after the leading slash of an absolute path) are clean.
\<close>

definition clean_segment :: "string \<Rightarrow> bool" where
  "clean_segment s = (s \<noteq> [] \<and> CHR ''/'' \<notin> set s \<and> s \<noteq> ''.'' \<and> s \<noteq> ''..'')"

definition plain_path :: "string \<Rightarrow> bool" where
  "plain_path p =
     (p \<noteq> [] \<and> list_all clean_segment (split_on CHR ''/'' (if hd p = CHR ''/'' then tl p else p)))"

text \<open>Kinds of events, and the part of a run after the first event of a kind.\<close>

fun is_health :: "event \<Rightarrow> bool" where
  "is_health (GetComponentRepositoryErrors n s) = True"
| "is_health _ = False"

fun is_setFailed :: "event \<Rightarrow> bool" where
  "is_setFailed (SetFailed m) = True"
| "is_setFailed _ = False"

fun is_createComponent :: "event \<Rightarrow> bool" where
  "is_createComponent (CreateComponent a) = True"
| "is_createComponent _ = False"

fun is_console :: "event \<Rightarrow> bool" where
  "is_console (Console c) = True"
| "is_console _ = False"

fun is_discovery_start :: "event \<Rightarrow> bool" where
  "is_discovery_start (Console (Log (GlobPatternDetected x))) = True"
| "is_discovery_start (Console (Log (DirectPath x))) = True"
| "is_discovery_start _ = False"

fun is_resolved_log :: "event \<Rightarrow> bool" where
  "is_resolved_log (Console (Log (ResolvedComponentsInCode x y))) = True"
| "is_resolved_log _ = False"

fun is_remove :: "event \<Rightarrow> bool" where
  "is_remove (RemoveMissingComponents i s c) = True"
| "is_remove _ = False"

definition events_after :: "(event \<Rightarrow> bool) \<Rightarrow> 'p entry list \<Rightarrow> 'p entry list" where
  "events_after P t = tl (dropWhile (\<lambda>e. \<not> P (fst e)) t)"

text \<open>
  The answer of the repository check of a run: the query is the first event of its kind,
  and it reads the state recorded with it.
\<close>

definition health_answer ::
  "'p services \<Rightarrow> Configuration \<Rightarrow> 'p entry list \<Rightarrow> (js_error + RepositoryErrors) option" where
  "health_answer weblate config t =
     (case find (\<lambda>e. is_health (fst e)) t of
        Some (GetComponentRepositoryErrors n s, q) \<Rightarrow>
          Some (getComponentRepositoryErrors weblate n s config q)
      | _ \<Rightarrow> None)"

text \<open>The arguments of the creation calls among some events, in order.\<close>

fun create_args :: "event list \<Rightarrow> CreateComponentArgs list" where
  "create_args [] = []"
| "create_args (CreateComponent a # es) = a # create_args es"
| "create_args (e # es) = create_args es"

text \<open>The identifiers passed to \<open>removeCategory\<close> among some events, in order.\<close>

fun removed_ids :: "event list \<Rightarrow> nat list" where
  "removed_ids [] = []"
| "removed_ids (RemoveCategory i # es) = i # removed_ids es"
| "removed_ids (e # es) = removed_ids es"

text \<open>The messages passed to \<open>setFailed\<close> among some events, in order.\<close>

fun failures :: "event list \<Rightarrow> string list" where
  "failures [] = []"
| "failures (SetFailed m # es) = m # failures es"
| "failures (e # es) = failures es"

text \<open>The lists of names passed to the task barrier among some events, in order.\<close>

fun waited_names :: "event list \<Rightarrow> string list list" where
  "waited_names [] = []"
| "waited_names (WaitComponentsTasks names slug # es) = names # waited_names es"
| "waited_names (e # es) = waited_names es"

text \<open>
  For every removal step of a run: the names passed to the task barrier issued right
  before it (if the event before it is a barrier), and the names of the components the
  category held when that barrier was issued.
\<close>

fun barrier_report ::
  "'p services \<Rightarrow> 'p entry option \<Rightarrow> 'p entry list
     \<Rightarrow> (string list option \<times> (js_error + string list)) list" where
  "barrier_report weblate prev [] = []"
| "barrier_report weblate prev ((RemoveMissingComponents cid slug code, q) # rest) =
     (case prev of
        Some (WaitComponentsTasks names slug', q') \<Rightarrow>
          (Some names, map_sum id (map c_name) (getComponentsInCategory weblate cid q'))
      | _ \<Rightarrow> (None, map_sum id (map c_name) (getComponentsInCategory weblate cid q)))
     # barrier_report weblate (Some (RemoveMissingComponents cid slug code, q)) rest"
| "barrier_report weblate prev (e # rest) = barrier_report weblate (Some e) rest"

text \<open>
  The failure messages of a run that were not posted as a comment right before the run
  was marked failed.
\<close>

fun uncommented_failures :: "event option \<Rightarrow> event list \<Rightarrow> string list" where
  "uncommented_failures prev [] = []"
| "uncommented_failures prev (SetFailed m # es) =
     (case prev of
        Some (CreateComment n body) \<Rightarrow> if body = m then [] else [m]
      | _ \<Rightarrow> [m])
     @ uncommented_failures (Some (SetFailed m)) es"
| "uncommented_failures prev (e # es) = uncommented_failures (Some e) es"

section \<open>Concrete inputs\<close>

subsection \<open>A small platform to run the handlers on\<close>

text \<open>
  Modelled from the spec: the platform client, the helpers of the logic module and the
  hosting client are not among the sources. This platform follows their contracts in
  section 6 of the specification: categories are found by branch name and created once;
  a component is stored under its category and replaced when created again with the same
  name; removing a category removes its components; the barrier and the pulls leave the
  stored data alone; the repository check, the translation check and the pull answer what
  the state says. It only serves to run the handlers on concrete inputs.
\<close>

record demo_state =
  st_categories :: "(nat \<times> string) list"
  st_components :: "(nat \<times> WeblateComponent) list"
  st_repository :: RepositoryErrors
  st_untranslated :: "string option"
  st_pull :: "string option"
  st_comments :: "(nat option \<times> string) list"

definition demo_createCategoryForBranch ::
  "string \<Rightarrow> demo_state \<Rightarrow> (js_error + CreatedCategory) \<times> demo_state" where
  "demo_createCategoryForBranch n st =
     (case find (\<lambda>c. snd c = n) (st_categories st) of
        Some c \<Rightarrow> (Inr \<lparr> cat_id = fst c, cat_slug = n, wasRecentlyCreated = False \<rparr>, st)
      | None \<Rightarrow>
          (let i = Suc (foldr max (map fst (st_categories st)) 0)
           in (Inr \<lparr> cat_id = i, cat_slug = n, wasRecentlyCreated = True \<rparr>,
               st\<lparr> st_categories := st_categories st @ [(i, n)] \<rparr>)))"

definition demo_findCategoryForBranch :: "string \<Rightarrow> demo_state \<Rightarrow> js_error + Category option" where
  "demo_findCategoryForBranch n st =
     Inr (map_option (\<lambda>c. \<lparr> cat_id = fst c, cat_slug = n \<rparr>)
            (find (\<lambda>c. snd c = n) (st_categories st)))"

definition demo_removeCategory :: "nat \<Rightarrow> demo_state \<Rightarrow> (js_error + unit) \<times> demo_state" where
  "demo_removeCategory i st =
     (Inr (), st\<lparr> st_categories := filter (\<lambda>c. fst c \<noteq> i) (st_categories st),
                 st_components := filter (\<lambda>c. fst c \<noteq> i) (st_components st) \<rparr>)"

definition demo_component :: "CreateComponentArgs \<Rightarrow> WeblateComponent" where
  "demo_component a =
     \<lparr> c_name = arg_name a, c_slug = arg_name a, filemask = arg_fileMask a,
       template = arg_source a,
       linked_component = (case arg_branch a of Some b \<Rightarrow> None | None \<Rightarrow> Some (arg_repo a)) \<rparr>"

definition demo_createComponent ::
  "CreateComponentArgs \<Rightarrow> demo_state \<Rightarrow> (js_error + WeblateComponent) \<times> demo_state" where
  "demo_createComponent a st =
     (Inr (demo_component a),
      st\<lparr> st_components :=
            filter (\<lambda>c. if fst c = arg_categoryId a then c_name (snd c) \<noteq> arg_name a else True)
              (st_components st)
            @ [(arg_categoryId a, demo_component a)] \<rparr>)"

definition demo_getComponentsInCategory ::
  "nat \<Rightarrow> demo_state \<Rightarrow> js_error + WeblateComponent list" where
  "demo_getComponentsInCategory i st =
     Inr (map snd (filter (\<lambda>c. fst c = i) (st_components st)))"

definition demo_getMainComponentInCategory ::
  "nat \<Rightarrow> demo_state \<Rightarrow> js_error + WeblateComponent option" where
  "demo_getMainComponentInCategory i st =
     Inr (find (\<lambda>c. linked_component c = None)
            (map snd (filter (\<lambda>c. fst c = i) (st_components st))))"

definition demo_removeMissingComponents ::
  "Configuration \<Rightarrow> nat \<Rightarrow> string \<Rightarrow> ComponentInCode list \<Rightarrow> demo_state
     \<Rightarrow> (js_error + unit) \<times> demo_state" where
  "demo_removeMissingComponents config i slug code st =
     (Inr (),
      st\<lparr> st_components :=
            filter (\<lambda>c. if fst c = i
                        then c_name (snd c) \<in> set (map name code)
                             \<or> c_name (snd c) \<in> set (map (\<lambda>g. pr_name config (name g)) code)
                        else True)
              (st_components st) \<rparr>)"

definition demo_createComment :: "nat option \<Rightarrow> string \<Rightarrow> demo_state \<Rightarrow> (js_error + unit) \<times> demo_state" where
  "demo_createComment n body st = (Inr (), st\<lparr> st_comments := st_comments st @ [(n, body)] \<rparr>)"

definition demo_services :: "demo_state services" where
  "demo_services =
     \<lparr> createCategoryForBranch = demo_createCategoryForBranch,
       findCategoryForBranch = demo_findCategoryForBranch,
       removeCategory = demo_removeCategory,
       createComponent = demo_createComponent,
       getComponentsInCategory = demo_getComponentsInCategory,
       getMainComponentInCategory = demo_getMainComponentInCategory,
       waitComponentsTasks = (\<lambda>names slug st. (Inr (), st)),
       pullComponentRemoteChanges = (\<lambda>n slug st. (Inr (), st)),
       pullRemoteChanges = (\<lambda>config i slug st. (Inr (st_pull st), st)),
       removeMissingComponents = demo_removeMissingComponents,
       getComponentRepositoryErrors = (\<lambda>n slug config st. Inr (st_repository st)),
       getUntranslatedComponentsError = (\<lambda>cs slug st. Inr (st_untranslated st)),
       getOctokit = (\<lambda>token. if token = []
                               then Inl (Rejected ''Parameter token or opts.auth is required'')
                               else Inr ()),
       createComment = demo_createComment \<rparr>"

subsection \<open>A file tree, states of the platform and configurations\<close>

text \<open>A small file tree to run discovery on.\<close>

definition subdir :: "string \<Rightarrow> dirent" where
  "subdir n = \<lparr> dirent_name = n, isDirectory = True \<rparr>"

definition plain_file :: "string \<Rightarrow> dirent" where
  "plain_file n = \<lparr> dirent_name = n, isDirectory = False \<rparr>"

definition demo_fs :: fs_env where
  "demo_fs =
     \<lparr> cwd = ''/test/project'',
       glob = (\<lambda>pattern.
         if pattern = ''projects/*/src/i18n-keysets''
         then Inr [''projects/project-a/src/i18n-keysets'', ''projects/project-b/src/i18n-keysets'']
         else if pattern = ''apps/*/keysets'' then Inr [''apps/web/keysets'']
         else Inr []),
       readdir = (\<lambda>p.
         if p = ''/test/project/src/i18n-keysets''
         then Inr [subdir ''component1'', subdir ''.hidden'', plain_file ''file.json'',
                   subdir ''component2'']
         else if p = ''/test/project/projects/project-a/src/i18n-keysets''
         then Inr [subdir ''component1'', subdir ''.hidden'']
         else if p = ''/test/project/apps/web/keysets''
         then Inr [subdir ''billing'']
         else Inl (Rejected ''Permission denied'')) \<rparr>"

definition clean_repository :: RepositoryErrors where
  "clean_repository = \<lparr> mergeFailureError = None, needsCommitError = None, needsPushError = None \<rparr>"

definition trunk_component :: "string \<Rightarrow> string option \<Rightarrow> WeblateComponent" where
  "trunk_component n link =
     \<lparr> c_name = n, c_slug = n, filemask = ''src/i18n-keysets/'' @ n @ ''/*.json'',
       template = ''src/i18n-keysets/'' @ n @ ''/en.json'', linked_component = link \<rparr>"

text \<open>No category yet.\<close>

definition demo_empty :: demo_state where
  "demo_empty =
     \<lparr> st_categories = [], st_components = [], st_repository = clean_repository,
       st_untranslated = None, st_pull = None, st_comments = [] \<rparr>"

text \<open>The trunk category with its two components.\<close>

definition demo_trunk :: demo_state where
  "demo_trunk =
     \<lparr> st_categories = [(1, ''master'')],
       st_components =
         [(1, trunk_component ''component1'' None),
          (1, trunk_component ''component2'' (Some ''weblate://demo/master/component1''))],
       st_repository = clean_repository,
       st_untranslated = None, st_pull = None, st_comments = [] \<rparr>"

text \<open>
  The trunk category, and the category of pull request 42 left by an earlier run: besides
  the component of a group still in the code it holds one whose group is gone.
\<close>

definition demo_reopened :: demo_state where
  "demo_reopened =
     \<lparr> st_categories = [(1, ''master''), (2, ''feature__42'')],
       st_components =
         [(1, trunk_component ''component1'' None),
          (1, trunk_component ''component2'' (Some ''weblate://demo/master/component1'')),
          (2, trunk_component ''component1__42'' None),
          (2, trunk_component ''stale__42'' (Some ''weblate://demo/feature__42/component1__42''))],
       st_repository = clean_repository,
       st_untranslated = None, st_pull = None, st_comments = [] \<rparr>"

text \<open>States whose repository check reports a condition.\<close>

definition demo_conflict :: demo_state where
  "demo_conflict =
     demo_trunk \<lparr> st_repository :=
       \<lparr> mergeFailureError = Some ''Merge failed'',
         needsCommitError = Some ''Uncommitted changes'',
         needsPushError = Some ''Unpushed commits'' \<rparr> \<rparr>"

definition demo_pr_conflict :: demo_state where
  "demo_pr_conflict = demo_reopened \<lparr> st_repository := st_repository demo_conflict \<rparr>"

definition demo_uncommitted :: demo_state where
  "demo_uncommitted =
     demo_reopened \<lparr> st_repository :=
       \<lparr> mergeFailureError = None,
         needsCommitError = Some ''Uncommitted changes'',
         needsPushError = None \<rparr> \<rparr>"

definition demo_trunk_uncommitted :: demo_state where
  "demo_trunk_uncommitted = demo_trunk \<lparr> st_repository := st_repository demo_uncommitted \<rparr>"

definition demo_sync_config :: Configuration where
  "demo_sync_config =
     \<lparr> mode = SYNC_MASTER, branchName = ''master'', masterBranch = ''master'',
       keysetsPath = ''src/i18n-keysets'', mainLanguage = ''en'',
       gitRepo = ''https://example.org/repo.git'', project = ''demo'',
       githubToken = ''token'', pullRequestNumber = None, pullRequestAuthor = None \<rparr>"

definition demo_pr_config :: Configuration where
  "demo_pr_config =
     \<lparr> mode = VALIDATE_PULL_REQUEST, branchName = ''feature'', masterBranch = ''master'',
       keysetsPath = ''src/i18n-keysets'', mainLanguage = ''en'',
       gitRepo = ''https://example.org/repo.git'', project = ''demo'',
       githubToken = ''token'', pullRequestNumber = Some 42, pullRequestAuthor = Some ''alice'' \<rparr>"

definition demo_remove_config :: Configuration where
  "demo_remove_config = demo_pr_config \<lparr> mode := REMOVE_BRANCH \<rparr>"



section \<open>Properties of resource discovery\<close>

subsection \<open>Strings and paths\<close>

lemma split_on_nonempty: "split_on c s \<noteq> []"
  by (induction s) (auto split: list.splits)

lemma split_on_append: "split_on c (a @ c # b) = split_on c a @ split_on c b"
proof (induction a)
  case Nil
  then show ?case by simp
next
  case (Cons x a)
  then show ?case
    using split_on_nonempty [of c a] by (auto split: list.splits)
qed

lemma split_on_absent: "c \<notin> set s \<Longrightarrow> split_on c s = [s]"
  by (induction s) auto

lemma join_split: "join_with [c] (split_on c s) = s"
proof (induction s)
  case Nil
  then show ?case by simp
next
  case (Cons x s)
  show ?case
  proof (cases "x = c")
    case True
    with Cons show ?thesis
      using split_on_nonempty [of c s] by (cases "split_on c s") auto
  next
    case False
    with Cons show ?thesis
      using split_on_nonempty [of c s]
      by (cases "split_on c s"; cases "tl (split_on c s)") auto
  qed
qed

lemma join_with_snoc: "xs \<noteq> [] \<Longrightarrow> join_with sep (xs @ [y]) = join_with sep xs @ sep @ y"
  by (induction sep xs rule: join_with.induct) auto

lemma foldl_norm_clean:
  "list_all clean_segment segs \<Longrightarrow> foldl (norm_step b) acc segs = acc @ segs"
  by (induction segs arbitrary: acc) (auto simp: norm_step_def clean_segment_def)

lemma path_join_plain:
  assumes p: "plain_path p" and n: "clean_segment n" and f: "clean_segment f"
  shows "path_join [p, n, f] = p @ ''/'' @ n @ ''/'' @ f"
proof -
  define J where "J = p @ ''/'' @ n @ ''/'' @ f"
  have pne: "p \<noteq> []" using p by (simp add: plain_path_def)
  have nne: "n \<noteq> []" and fne: "f \<noteq> []" using n f by (simp_all add: clean_segment_def)
  have joined: "join_with ''/'' (filter (\<lambda>a. a \<noteq> []) [p, n, f]) = J"
    using pne nne fne by (simp add: J_def)
  have Jne: "J \<noteq> []" using pne by (simp add: J_def)
  have hdJ: "hd J = hd p" using pne by (simp add: J_def)
  have "last f \<noteq> CHR ''/''"
    using f last_in_set [of f] unfolding clean_segment_def by metis
  then have lastJ: "last J \<noteq> CHR ''/''"
    using fne by (simp add: J_def)
  have splitJ: "split_on CHR ''/'' J = split_on CHR ''/'' p @ [n, f]"
    using n f by (simp add: J_def split_on_append split_on_absent clean_segment_def)
  show ?thesis
  proof (cases "hd p = CHR ''/''")
    case False
    with p have segs: "list_all clean_segment (split_on CHR ''/'' p)"
      by (simp add: plain_path_def)
    then have all: "list_all clean_segment (split_on CHR ''/'' p @ [n, f])"
      using n f by simp
    have "foldl (norm_step True) [] (split_on CHR ''/'' p @ [n, f]) = [] @ (split_on CHR ''/'' p @ [n, f])"
      using all by (rule foldl_norm_clean)
    then have "normalizeString J True = join_with ''/'' (split_on CHR ''/'' p @ [n, f])"
      unfolding normalizeString_def splitJ by (simp only: append_Nil)
    also have "\<dots> = join_with ''/'' (split_on CHR ''/'' p @ [n]) @ ''/'' @ f"
      using join_with_snoc [of "split_on CHR ''/'' p @ [n]" "''/''" f] by simp
    also have "join_with ''/'' (split_on CHR ''/'' p @ [n]) = join_with ''/'' (split_on CHR ''/'' p) @ ''/'' @ n"
      using join_with_snoc [of "split_on CHR ''/'' p" "''/''" n] split_on_nonempty [of "CHR ''/''" p]
      by simp
    also have "join_with ''/'' (split_on CHR ''/'' p) = p" by (rule join_split)
    finally have q: "normalizeString J True = J" by (simp add: J_def)
    have "path_join [p, n, f] = J"
      unfolding path_join_def joined Let_def path_normalize_def
      using False Jne hdJ lastJ q by simp
    then show ?thesis by (simp add: J_def)
  next
    case True
    with pne obtain p' where pp: "p = CHR ''/'' # p'" by (cases p) auto
    with p have segs: "list_all clean_segment (split_on CHR ''/'' p')"
      by (simp add: plain_path_def)
    then have all: "list_all clean_segment (split_on CHR ''/'' p' @ [n, f])"
      using n f by simp
    have sp: "split_on CHR ''/'' p = [] # split_on CHR ''/'' p'" by (simp add: pp)
    have "foldl (norm_step False) [] (split_on CHR ''/'' p' @ [n, f]) = [] @ (split_on CHR ''/'' p' @ [n, f])"
      using all by (rule foldl_norm_clean)
    moreover have "foldl (norm_step False) [] (([] # split_on CHR ''/'' p') @ [n, f]) =
        foldl (norm_step False) [] (split_on CHR ''/'' p' @ [n, f])"
      by (simp add: norm_step_def)
    ultimately have "normalizeString J False = join_with ''/'' (split_on CHR ''/'' p' @ [n, f])"
      unfolding normalizeString_def splitJ sp by (simp only: append_Nil)
    also have "\<dots> = join_with ''/'' (split_on CHR ''/'' p' @ [n]) @ ''/'' @ f"
      using join_with_snoc [of "split_on CHR ''/'' p' @ [n]" "''/''" f] by simp
    also have "join_with ''/'' (split_on CHR ''/'' p' @ [n]) = join_with ''/'' (split_on CHR ''/'' p') @ ''/'' @ n"
      using join_with_snoc [of "split_on CHR ''/'' p'" "''/''" n] split_on_nonempty [of "CHR ''/''" p']
      by simp
    also have "join_with ''/'' (split_on CHR ''/'' p') = p'" by (rule join_split)
    finally have q: "normalizeString J False = p' @ ''/'' @ n @ ''/'' @ f" by simp
    have "J = CHR ''/'' # p' @ ''/'' @ n @ ''/'' @ f" by (simp add: J_def pp)
    then have "path_join [p, n, f] = J"
      unfolding path_join_def joined Let_def path_normalize_def
      using True Jne hdJ lastJ q by simp
    then show ?thesis by (simp add: J_def)
  qed
qed

lemma indexOf_ge: "- 1 \<le> indexOf xs a"
  by (induction xs) (auto simp: Let_def)

lemma indexOf_Cons_neq:
  "x \<noteq> a \<Longrightarrow> indexOf (x # xs) a = (if indexOf xs a = - 1 then - 1 else indexOf xs a + 1)"
  by (simp add: Let_def)

lemma indexOf_after_anchor:
  "after_anchor a parts =
     (if indexOf parts a \<noteq> - 1 \<and> indexOf parts a + 1 < int (length parts)
      then Some (parts ! nat (indexOf parts a + 1)) else None)"
proof (induction a parts rule: after_anchor.induct)
  case (1 anchor)
  then show ?case by simp
next
  case (2 anchor x)
  then show ?case by (simp add: Let_def)
next
  case (3 anchor x y ys)
  show ?case
  proof (cases "x = anchor")
    case True
    then show ?thesis by simp
  next
    case False
    define i where "i = indexOf (y # ys) anchor"
    have ge: "- 1 \<le> i" unfolding i_def by (rule indexOf_ge)
    have ix: "indexOf (x # y # ys) anchor = (if i = - 1 then - 1 else i + 1)"
      unfolding i_def using False by (rule indexOf_Cons_neq)
    have ih: "after_anchor anchor (y # ys) =
        (if i \<noteq> - 1 \<and> i + 1 < int (length (y # ys)) then Some ((y # ys) ! nat (i + 1)) else None)"
      unfolding i_def using 3 False by simp
    have step: "after_anchor anchor (x # y # ys) = after_anchor anchor (y # ys)"
      using False by simp
    show ?thesis
    proof (cases "i = - 1")
      case True
      then show ?thesis unfolding step ih ix by simp
    next
      case neq: False
      with ge have pos: "0 \<le> i" by linarith
      then have n: "nat (i + 1 + 1) = Suc (nat (i + 1))" by linarith
      show ?thesis unfolding step ih ix using neq pos n by simp
    qed
  qed
qed

lemma split_on_single: "split_on c s = [x] \<Longrightarrow> c \<notin> set s"
proof (induction s arbitrary: x)
  case Nil
  then show ?case by simp
next
  case (Cons a s)
  then show ?case
    using split_on_nonempty [of c s] by (auto split: if_splits list.splits)
qed

lemma dirname_single: "CHR ''/'' \<notin> set dir \<Longrightarrow> path_basename (path_dirname dir) = ''.''"
proof -
  assume a: "CHR ''/'' \<notin> set dir"
  have b: "path_basename ''.'' = ''.''"
    by (simp add: path_basename_def strip_trailing_slashes_def)
  have "path_dirname dir = ''.''"
  proof (cases dir)
    case Nil
    then show ?thesis by (simp add: path_dirname_def)
  next
    case (Cons x xs)
    with a have "CHR ''/'' \<notin> set (strip_trailing_slashes xs)"
      unfolding strip_trailing_slashes_def
      by (metis list.set_intros(2) set_dropWhileD set_rev)
    with Cons a show ?thesis by (auto simp add: path_dirname_def Let_def)
  qed
  with b show ?thesis by simp
qed

lemma last_butlast_nth: "2 \<le> length xs \<Longrightarrow> last (butlast xs) = xs ! (length xs - 2)"
proof -
  assume a: "2 \<le> length xs"
  then have ne: "butlast xs \<noteq> []" by (cases xs rule: rev_cases) auto
  have "last (butlast xs) = butlast xs ! (length (butlast xs) - 1)"
    using ne by (rule last_conv_nth)
  also have "\<dots> = xs ! (length (butlast xs) - 1)"
    using a by (intro nth_butlast) simp
  also have "length (butlast xs) - 1 = length xs - 2" by simp
  finally show ?thesis .
qed

lemma parentDirName_parentSegment:
  assumes "[] \<notin> set (split_on CHR ''/'' dir)"
  shows "parentDirName dir = parentSegment dir"
proof -
  define parts where "parts = split_on CHR ''/'' dir"
  define i where "i = indexOf parts ''projects''"
  have anchor: "after_anchor ''projects'' parts =
      (if i \<noteq> - 1 \<and> i + 1 < int (length parts) then Some (parts ! nat (i + 1)) else None)"
    unfolding i_def by (rule indexOf_after_anchor)
  have code: "parentDirName dir =
      (if i \<noteq> - 1 \<and> i + 1 < int (length parts) then parts ! nat (i + 1)
       else if 2 \<le> length parts \<and> truthy (parts ! (length parts - 2))
       then parts ! (length parts - 2)
       else path_basename (path_dirname dir))"
    unfolding parentDirName_def i_def parts_def Let_def ..
  have spec: "parentSegment dir =
      (case after_anchor ''projects'' parts of
           Some s \<Rightarrow> s
         | None \<Rightarrow> if 2 \<le> length parts then last (butlast parts) else ''.'')"
    unfolding parentSegment_def parts_def Let_def ..
  show ?thesis
  proof (cases "i \<noteq> - 1 \<and> i + 1 < int (length parts)")
    case True
    then show ?thesis unfolding code spec anchor by simp
  next
    case no: False
    show ?thesis
    proof (cases "2 \<le> length parts")
      case True
      then have "parts ! (length parts - 2) \<in> set parts" by simp
      with assms have ne: "parts ! (length parts - 2) \<noteq> []"
        unfolding parts_def by metis
      have "last (butlast parts) = parts ! (length parts - 2)"
        using True by (rule last_butlast_nth)
      with True ne no show ?thesis
        unfolding code spec anchor truthy_def by auto
    next
      case False
      have "parts \<noteq> []" unfolding parts_def by (rule split_on_nonempty)
      with False obtain x where "parts = [x]"
        by (cases parts) (auto simp: not_le less_Suc_eq_le numeral_2_eq_2)
      then have "CHR ''/'' \<notin> set dir" unfolding parts_def by (rule split_on_single)
      then have "path_basename (path_dirname dir) = ''.''" by (rule dirname_single)
      with False no show ?thesis
        unfolding code spec anchor by auto
    qed
  qed
qed

subsection \<open>The loop over the matched directories\<close>

lemma glob_loop_eq:
  "glob_loop env lang dirs (cs, out) =
     (cs @ concat (map (dir_groups env lang) dirs), out @ concat (map (dir_console env lang) dirs))"
proof (induction dirs arbitrary: cs out)
  case Nil
  show ?case by simp
next
  case (Cons d ds)
  show ?case
  proof (cases "readdir env (path_resolve (cwd env) [cwd env, d])")
    case (Inl err)
    then show ?thesis
      by (simp add: Cons.IH dir_groups_def dir_console_def listing_def)
  next
    case (Inr dirents)
    then show ?thesis
      by (simp add: Cons.IH dir_groups_def dir_console_def listing_def Let_def)
  qed
qed

lemma warnings_dir_console:
  "filter is_warning (dir_console env lang d) =
     (case listing env d of Inl err \<Rightarrow> [Warn (FailedToReadDirectory d err)] | Inr dirents \<Rightarrow> [])"
  by (simp add: dir_console_def split: sum.splits)

lemma resolveComponents_glob:
  assumes "isGlobPattern p" and "glob env p = Inr dirs"
  shows "resolveComponents env p lang =
     (Inr (concat (map (dir_groups env lang) dirs)),
      [Log (GlobPatternDetected p), Log (FoundDirectoriesMatching (length dirs))]
        @ concat (map (dir_console env lang) dirs)
        @ [Log (TotalComponentsFound (length (concat (map (dir_groups env lang) dirs))))])"
  using assms by (simp add: resolveComponents_def glob_loop_eq)

lemma resolveComponents_direct:
  assumes "\<not> isGlobPattern p" and "listing env p = Inr dirents"
  shows "resolveComponents env p lang =
     (Inr (directComponents p lang dirents),
      [Log (DirectPath p), Log (FoundComponentsIn (length (directComponents p lang dirents)) p)])"
  using assms by (simp add: resolveComponents_def listing_def Let_def)

subsection \<open>The claims about discovery\<close>

text \<open>
  C6. For a glob pattern, every matched directory that can be read contributes one group
  for each of its non-hidden immediate subdirectories, in the order of the listing, and
  the name of the group is the parent segment, an underscore and the name of the
  subdirectory. The parent segment is the segment right after the first segment
  \<open>projects\<close> when that segment is not the last one, and else the segment before the
  last (the current directory for a path of one segment). The matched directories are
  paths as the glob expansion returns them: no segment is empty.
\<close>

theorem glob_group_names:
  assumes "isGlobPattern path"
      and "glob env path = Inr matchedDirs"
      and "list_all (\<lambda>dir. [] \<notin> set (split_on CHR ''/'' dir)) matchedDirs"
  shows "map_sum id (map name) (fst (resolveComponents env path language)) =
           Inr (concat (map (\<lambda>dir. case listing env dir of
                                     Inl err \<Rightarrow> []
                                   | Inr dirents \<Rightarrow>
                                       map (\<lambda>d. parentSegment dir @ ''_'' @ dirent_name d)
                                         (filter visible_dir dirents))
                          matchedDirs))"
proof -
  have "map name (dir_groups env language dir) =
          (case listing env dir of
             Inl err \<Rightarrow> []
           | Inr dirents \<Rightarrow>
               map (\<lambda>d. parentSegment dir @ ''_'' @ dirent_name d) (filter visible_dir dirents))"
    if "dir \<in> set matchedDirs" for dir
  proof -
    from that assms(3) have "parentDirName dir = parentSegment dir"
      by (intro parentDirName_parentSegment) (simp add: list_all_iff)
    then show ?thesis
      by (simp add: dir_groups_def dirComponents_def comp_def split: sum.splits)
  qed
  then have "map (\<lambda>dir. map name (dir_groups env language dir)) matchedDirs =
      map (\<lambda>dir. case listing env dir of
                     Inl err \<Rightarrow> []
                   | Inr dirents \<Rightarrow>
                       map (\<lambda>d. parentSegment dir @ ''_'' @ dirent_name d)
                         (filter visible_dir dirents)) matchedDirs"
    by (intro map_cong) simp_all
  then have "concat (map (\<lambda>dir. map name (dir_groups env language dir)) matchedDirs) =
      concat (map (\<lambda>dir. case listing env dir of
                     Inl err \<Rightarrow> []
                   | Inr dirents \<Rightarrow>
                       map (\<lambda>d. parentSegment dir @ ''_'' @ dirent_name d)
                         (filter visible_dir dirents)) matchedDirs)"
    by (rule arg_cong)
  moreover have "map_sum id (map name) (fst (resolveComponents env path language)) =
      Inr (concat (map (\<lambda>dir. map name (dir_groups env language dir)) matchedDirs))"
    by (simp add: resolveComponents_glob [OF assms(1,2)] map_concat comp_def)
  ultimately show ?thesis by (simp only:)
qed

theorem glob_group_names_witness:
  "isGlobPattern ''projects/*/src/i18n-keysets''
   \<and> glob demo_fs ''projects/*/src/i18n-keysets'' =
        Inr [''projects/project-a/src/i18n-keysets'', ''projects/project-b/src/i18n-keysets'']
   \<and> list_all (\<lambda>dir. [] \<notin> set (split_on CHR ''/'' dir))
        [''projects/project-a/src/i18n-keysets'', ''projects/project-b/src/i18n-keysets'']
   \<and> map_sum id (map name) (fst (resolveComponents demo_fs ''projects/*/src/i18n-keysets'' ''en'')) =
        Inr [''project-a_component1'']
   \<and> isGlobPattern ''apps/*/keysets''
   \<and> glob demo_fs ''apps/*/keysets'' = Inr [''apps/web/keysets'']
   \<and> map_sum id (map name) (fst (resolveComponents demo_fs ''apps/*/keysets'' ''en'')) =
        Inr [''web_billing'']"
proof -
  have h1: "isGlobPattern ''projects/*/src/i18n-keysets''" by code_simp
  have h2: "glob demo_fs ''projects/*/src/i18n-keysets'' =
        Inr [''projects/project-a/src/i18n-keysets'', ''projects/project-b/src/i18n-keysets'']"
    by code_simp
  have h3: "list_all (\<lambda>dir. [] \<notin> set (split_on CHR ''/'' dir))
        [''projects/project-a/src/i18n-keysets'', ''projects/project-b/src/i18n-keysets'']"
    by code_simp
  have c: "concat (map (\<lambda>dir. case listing demo_fs dir of
                                     Inl err \<Rightarrow> []
                                   | Inr dirents \<Rightarrow>
                                       map (\<lambda>d. parentSegment dir @ ''_'' @ dirent_name d)
                                         (filter visible_dir dirents))
               [''projects/project-a/src/i18n-keysets'', ''projects/project-b/src/i18n-keysets''])
           = [''project-a_component1'']"
    by code_simp
  have g1: "isGlobPattern ''apps/*/keysets''" by code_simp
  have g2: "glob demo_fs ''apps/*/keysets'' = Inr [''apps/web/keysets'']" by code_simp
  have g3: "list_all (\<lambda>dir. [] \<notin> set (split_on CHR ''/'' dir)) [''apps/web/keysets'']"
    by code_simp
  have d: "concat (map (\<lambda>dir. case listing demo_fs dir of
                                     Inl err \<Rightarrow> []
                                   | Inr dirents \<Rightarrow>
                                       map (\<lambda>d. parentSegment dir @ ''_'' @ dirent_name d)
                                         (filter visible_dir dirents))
               [''apps/web/keysets''])
           = [''web_billing'']"
    by code_simp
  from glob_group_names [OF h1 h2 h3, of "''en''"] c
  have a: "map_sum id (map name) (fst (resolveComponents demo_fs ''projects/*/src/i18n-keysets'' ''en'')) =
        Inr [''project-a_component1'']"
    by (simp only:)
  from glob_group_names [OF g1 g2 g3, of "''en''"] d
  have b: "map_sum id (map name) (fst (resolveComponents demo_fs ''apps/*/keysets'' ''en'')) =
        Inr [''web_billing'']"
    by (simp only:)
  from h1 h2 h3 g1 g2 a b show ?thesis by (simp only: simp_thms)
qed

lemma path_join_normalize:
  "p \<noteq> [] \<Longrightarrow> n \<noteq> [] \<Longrightarrow> f \<noteq> [] \<Longrightarrow>
     path_join [p, n, f] = path_normalize (p @ ''/'' @ n @ ''/'' @ f)"
  by (simp add: path_join_def)

text \<open>
  C7, as the code has it. For a path without glob characters whose directory can be read,
  the result is one group for each non-hidden immediate subdirectory, in the order of the
  listing. The name is the name of the subdirectory. The source and the file mask are the
  joins, by the runtime's path module, of the path, the subdirectory and the file
  (\<open><mainLanguage>.json\<close>, respectively \<open>*.json\<close>): for a non-empty path they are the
  normal forms of the texts \<open><path>/<subdirName>/<mainLanguage>.json\<close> and
  \<open><path>/<subdirName>/*.json\<close>, and they are these texts themselves when the path is
  plain (already in normal form, without a trailing slash), the entry names are clean and
  the language code has no slash.
\<close>

theorem direct_path_groups:
  assumes "\<not> isGlobPattern path"
      and "listing env path = Inr dirents"
  shows "fst (resolveComponents env path language) =
           Inr (map (\<lambda>subdirName.
                       \<lparr> name = subdirName,
                         source = path_join [path, subdirName, language @ ''.json''],
                         fileMask = path_join [path, subdirName, ''*.json''] \<rparr>)
                  (map dirent_name (filter visible_dir dirents)))
       \<and> (path \<noteq> [] \<and> list_all (\<lambda>d. dirent_name d \<noteq> []) dirents
          \<longrightarrow> fst (resolveComponents env path language) =
                Inr (map (\<lambda>subdirName.
                            \<lparr> name = subdirName,
                              source = path_normalize
                                (path @ ''/'' @ subdirName @ ''/'' @ language @ ''.json''),
                              fileMask = path_normalize
                                (path @ ''/'' @ subdirName @ ''/'' @ ''*.json'') \<rparr>)
                       (map dirent_name (filter visible_dir dirents))))
       \<and> (plain_path path \<and> CHR ''/'' \<notin> set language
            \<and> list_all (\<lambda>d. clean_segment (dirent_name d)) dirents
          \<longrightarrow> fst (resolveComponents env path language) =
                Inr (map (\<lambda>subdirName.
                            \<lparr> name = subdirName,
                              source = path @ ''/'' @ subdirName @ ''/'' @ language @ ''.json'',
                              fileMask = path @ ''/'' @ subdirName @ ''/'' @ ''*.json'' \<rparr>)
                       (map dirent_name (filter visible_dir dirents))))"
proof -
  have general: "fst (resolveComponents env path language) =
           Inr (map (\<lambda>subdirName.
                       \<lparr> name = subdirName,
                         source = path_join [path, subdirName, language @ ''.json''],
                         fileMask = path_join [path, subdirName, ''*.json''] \<rparr>)
                  (map dirent_name (filter visible_dir dirents)))"
    by (simp add: resolveComponents_direct [OF assms] directComponents_def comp_def)
  have normal: "map (\<lambda>subdirName.
                       \<lparr> name = subdirName,
                         source = path_join [path, subdirName, language @ ''.json''],
                         fileMask = path_join [path, subdirName, ''*.json''] \<rparr>)
                  (map dirent_name (filter visible_dir dirents))
             = map (\<lambda>subdirName.
                            \<lparr> name = subdirName,
                              source = path_normalize
                                (path @ ''/'' @ subdirName @ ''/'' @ language @ ''.json''),
                              fileMask = path_normalize
                                (path @ ''/'' @ subdirName @ ''/'' @ ''*.json'') \<rparr>)
                       (map dirent_name (filter visible_dir dirents))"
    if p: "path \<noteq> []" and d: "list_all (\<lambda>d. dirent_name d \<noteq> []) dirents"
  proof (rule map_cong [OF refl])
    fix n assume "n \<in> set (map dirent_name (filter visible_dir dirents))"
    with d have n: "n \<noteq> []" by (auto simp: list_all_iff)
    have f1: "language @ ''.json'' \<noteq> []" by simp
    have f2: "''*.json'' \<noteq> []" by simp
    show "\<lparr> name = n,
            source = path_join [path, n, language @ ''.json''],
            fileMask = path_join [path, n, ''*.json''] \<rparr>
        = \<lparr> name = n,
            source = path_normalize (path @ ''/'' @ n @ ''/'' @ language @ ''.json''),
            fileMask = path_normalize (path @ ''/'' @ n @ ''/'' @ ''*.json'') \<rparr>"
      using path_join_normalize [OF p n f1] path_join_normalize [OF p n f2] by simp
  qed
  have plain: "map (\<lambda>subdirName.
                       \<lparr> name = subdirName,
                         source = path_join [path, subdirName, language @ ''.json''],
                         fileMask = path_join [path, subdirName, ''*.json''] \<rparr>)
                  (map dirent_name (filter visible_dir dirents))
             = map (\<lambda>subdirName.
                            \<lparr> name = subdirName,
                              source = path @ ''/'' @ subdirName @ ''/'' @ language @ ''.json'',
                              fileMask = path @ ''/'' @ subdirName @ ''/'' @ ''*.json'' \<rparr>)
                       (map dirent_name (filter visible_dir dirents))"
    if p: "plain_path path" and l: "CHR ''/'' \<notin> set language"
      and d: "list_all (\<lambda>d. clean_segment (dirent_name d)) dirents"
  proof (rule map_cong [OF refl])
    fix n assume "n \<in> set (map dirent_name (filter visible_dir dirents))"
    with d have n: "clean_segment n" by (auto simp: list_all_iff)
    have f1: "clean_segment (language @ ''.json'')"
      using l by (auto simp: clean_segment_def)
    have f2: "clean_segment ''*.json''"
      by (simp add: clean_segment_def)
    show "\<lparr> name = n,
            source = path_join [path, n, language @ ''.json''],
            fileMask = path_join [path, n, ''*.json''] \<rparr>
        = \<lparr> name = n,
            source = path @ ''/'' @ n @ ''/'' @ language @ ''.json'',
            fileMask = path @ ''/'' @ n @ ''/'' @ ''*.json'' \<rparr>"
      using path_join_plain [OF p n f1] path_join_plain [OF p n f2] by simp
  qed
  show ?thesis
    using general normal plain by simp
qed

theorem direct_path_groups_witness:
  "\<not> isGlobPattern ''src/i18n-keysets''
   \<and> listing demo_fs ''src/i18n-keysets'' =
        Inr [subdir ''component1'', subdir ''.hidden'', plain_file ''file.json'', subdir ''component2'']
   \<and> plain_path ''src/i18n-keysets'' \<and> CHR ''/'' \<notin> set ''en''
   \<and> list_all (\<lambda>d. clean_segment (dirent_name d))
        [subdir ''component1'', subdir ''.hidden'', plain_file ''file.json'', subdir ''component2'']
   \<and> fst (resolveComponents demo_fs ''src/i18n-keysets'' ''en'') =
        Inr [\<lparr> name = ''component1'',
               source = ''src/i18n-keysets/component1/en.json'',
               fileMask = ''src/i18n-keysets/component1/*.json'' \<rparr>,
             \<lparr> name = ''component2'',
               source = ''src/i18n-keysets/component2/en.json'',
               fileMask = ''src/i18n-keysets/component2/*.json'' \<rparr>]
   \<and> \<not> isGlobPattern ''./src/i18n-keysets/''
   \<and> listing demo_fs ''./src/i18n-keysets/'' =
        Inr [subdir ''component1'', subdir ''.hidden'', plain_file ''file.json'', subdir ''component2'']
   \<and> ''./src/i18n-keysets/'' \<noteq> []
   \<and> list_all (\<lambda>d. dirent_name d \<noteq> [])
        [subdir ''component1'', subdir ''.hidden'', plain_file ''file.json'', subdir ''component2'']
   \<and> fst (resolveComponents demo_fs ''./src/i18n-keysets/'' ''en'') =
        Inr [\<lparr> name = ''component1'',
               source = ''src/i18n-keysets/component1/en.json'',
               fileMask = ''src/i18n-keysets/component1/*.json'' \<rparr>,
             \<lparr> name = ''component2'',
               source = ''src/i18n-keysets/component2/en.json'',
               fileMask = ''src/i18n-keysets/component2/*.json'' \<rparr>]"
proof -
  have h1: "\<not> isGlobPattern ''src/i18n-keysets''" by code_simp
  have h2: "listing demo_fs ''src/i18n-keysets'' =
        Inr [subdir ''component1'', subdir ''.hidden'', plain_file ''file.json'', subdir ''component2'']"
    by code_simp
  have h3: "plain_path ''src/i18n-keysets'' \<and> CHR ''/'' \<notin> set ''en''
     \<and> list_all (\<lambda>d. clean_segment (dirent_name d))
        [subdir ''component1'', subdir ''.hidden'', plain_file ''file.json'', subdir ''component2'']"
    by code_simp
  have c: "map (\<lambda>subdirName.
                  \<lparr> name = subdirName,
                    source = ''src/i18n-keysets'' @ ''/'' @ subdirName @ ''/'' @ ''en'' @ ''.json'',
                    fileMask = ''src/i18n-keysets'' @ ''/'' @ subdirName @ ''/'' @ ''*.json'' \<rparr>)
             (map dirent_name (filter visible_dir
                [subdir ''component1'', subdir ''.hidden'', plain_file ''file.json'', subdir ''component2'']))
         = [\<lparr> name = ''component1'',
               source = ''src/i18n-keysets/component1/en.json'',
               fileMask = ''src/i18n-keysets/component1/*.json'' \<rparr>,
             \<lparr> name = ''component2'',
               source = ''src/i18n-keysets/component2/en.json'',
               fileMask = ''src/i18n-keysets/component2/*.json'' \<rparr>]"
    by code_simp
  have g1: "\<not> isGlobPattern ''./src/i18n-keysets/''" by code_simp
  have g2: "listing demo_fs ''./src/i18n-keysets/'' =
        Inr [subdir ''component1'', subdir ''.hidden'', plain_file ''file.json'', subdir ''component2'']"
    by code_simp
  have g3: "''./src/i18n-keysets/'' \<noteq> []
     \<and> list_all (\<lambda>d. dirent_name d \<noteq> [])
        [subdir ''component1'', subdir ''.hidden'', plain_file ''file.json'', subdir ''component2'']"
    by code_simp
  have d: "map (\<lambda>subdirName.
                  \<lparr> name = subdirName,
                    source = path_normalize
                      (''./src/i18n-keysets/'' @ ''/'' @ subdirName @ ''/'' @ ''en'' @ ''.json''),
                    fileMask = path_normalize
                      (''./src/i18n-keysets/'' @ ''/'' @ subdirName @ ''/'' @ ''*.json'') \<rparr>)
             (map dirent_name (filter visible_dir
                [subdir ''component1'', subdir ''.hidden'', plain_file ''file.json'', subdir ''component2'']))
         = [\<lparr> name = ''component1'',
               source = ''src/i18n-keysets/component1/en.json'',
               fileMask = ''src/i18n-keysets/component1/*.json'' \<rparr>,
             \<lparr> name = ''component2'',
               source = ''src/i18n-keysets/component2/en.json'',
               fileMask = ''src/i18n-keysets/component2/*.json'' \<rparr>]"
    by code_simp
  from direct_path_groups [OF h1 h2, of "''en''"] h3
  have "fst (resolveComponents demo_fs ''src/i18n-keysets'' ''en'') =
          Inr (map (\<lambda>subdirName.
                  \<lparr> name = subdirName,
                    source = ''src/i18n-keysets'' @ ''/'' @ subdirName @ ''/'' @ ''en'' @ ''.json'',
                    fileMask = ''src/i18n-keysets'' @ ''/'' @ subdirName @ ''/'' @ ''*.json'' \<rparr>)
             (map dirent_name (filter visible_dir
                [subdir ''component1'', subdir ''.hidden'', plain_file ''file.json'', subdir ''component2''])))"
    by blast
  with c have a: "fst (resolveComponents demo_fs ''src/i18n-keysets'' ''en'') =
        Inr [\<lparr> name = ''component1'',
               source = ''src/i18n-keysets/component1/en.json'',
               fileMask = ''src/i18n-keysets/component1/*.json'' \<rparr>,
             \<lparr> name = ''component2'',
               source = ''src/i18n-keysets/component2/en.json'',
               fileMask = ''src/i18n-keysets/component2/*.json'' \<rparr>]"
    by (simp only:)
  from direct_path_groups [OF g1 g2, of "''en''"] g3
  have "fst (resolveComponents demo_fs ''./src/i18n-keysets/'' ''en'') =
          Inr (map (\<lambda>subdirName.
                  \<lparr> name = subdirName,
                    source = path_normalize
                      (''./src/i18n-keysets/'' @ ''/'' @ subdirName @ ''/'' @ ''en'' @ ''.json''),
                    fileMask = path_normalize
                      (''./src/i18n-keysets/'' @ ''/'' @ subdirName @ ''/'' @ ''*.json'') \<rparr>)
             (map dirent_name (filter visible_dir
                [subdir ''component1'', subdir ''.hidden'', plain_file ''file.json'', subdir ''component2''])))"
    by blast
  with d have b: "fst (resolveComponents demo_fs ''./src/i18n-keysets/'' ''en'') =
        Inr [\<lparr> name = ''component1'',
               source = ''src/i18n-keysets/component1/en.json'',
               fileMask = ''src/i18n-keysets/component1/*.json'' \<rparr>,
             \<lparr> name = ''component2'',
               source = ''src/i18n-keysets/component2/en.json'',
               fileMask = ''src/i18n-keysets/component2/*.json'' \<rparr>]"
    by (simp only:)
  from h1 h2 h3 g1 g2 g3 a b show ?thesis by (simp only: simp_thms)
qed

text \<open>
  C7 fails as stated. The path \<open>./src/i18n-keysets\<close> has no glob character and its
  directory is read; the source and the file mask of the first group are not the texts
  \<open><path>/<subdirName>/<mainLanguage>.json\<close> and \<open><path>/<subdirName>/*.json\<close>: the join
  has dropped the leading \<open>./\<close>. The same holds for a path with a trailing slash.
\<close>

theorem direct_path_source_is_normalized:
  "\<not> isGlobPattern ''./src/i18n-keysets''
   \<and> listing demo_fs ''./src/i18n-keysets'' =
        Inr [subdir ''component1'', subdir ''.hidden'', plain_file ''file.json'', subdir ''component2'']
   \<and> fst (resolveComponents demo_fs ''./src/i18n-keysets'' ''en'') =
        Inr [\<lparr> name = ''component1'',
               source = ''src/i18n-keysets/component1/en.json'',
               fileMask = ''src/i18n-keysets/component1/*.json'' \<rparr>,
             \<lparr> name = ''component2'',
               source = ''src/i18n-keysets/component2/en.json'',
               fileMask = ''src/i18n-keysets/component2/*.json'' \<rparr>]
   \<and> ''src/i18n-keysets/component1/en.json''
        \<noteq> ''./src/i18n-keysets'' @ ''/'' @ ''component1'' @ ''/'' @ ''en'' @ ''.json''
   \<and> ''src/i18n-keysets/component1/*.json''
        \<noteq> ''./src/i18n-keysets'' @ ''/'' @ ''component1'' @ ''/'' @ ''*.json''
   \<and> fst (resolveComponents demo_fs ''src/i18n-keysets/'' ''en'') =
        Inr [\<lparr> name = ''component1'',
               source = ''src/i18n-keysets/component1/en.json'',
               fileMask = ''src/i18n-keysets/component1/*.json'' \<rparr>,
             \<lparr> name = ''component2'',
               source = ''src/i18n-keysets/component2/en.json'',
               fileMask = ''src/i18n-keysets/component2/*.json'' \<rparr>]
   \<and> ''src/i18n-keysets/component1/en.json''
        \<noteq> ''src/i18n-keysets/'' @ ''/'' @ ''component1'' @ ''/'' @ ''en'' @ ''.json''"
  by code_simp

text \<open>
  C8. For a glob pattern whose expansion succeeds, \<open>resolveComponents\<close> returns and does
  not reject, whatever the directory reads do; its result is exactly the groups of the
  matched directories that could be read, in order; and the warnings it wrote are exactly
  one for each matched directory that could not be read, in order.
\<close>

theorem glob_read_failure_isolated:
  assumes "isGlobPattern path"
      and "glob env path = Inr matchedDirs"
  shows "fst (resolveComponents env path language) =
           Inr (concat (map (\<lambda>dir. case listing env dir of
                                     Inl err \<Rightarrow> []
                                   | Inr dirents \<Rightarrow> dirComponents dir language dirents)
                          matchedDirs))
       \<and> filter is_warning (snd (resolveComponents env path language)) =
           concat (map (\<lambda>dir. case listing env dir of
                                Inl err \<Rightarrow> [Warn (FailedToReadDirectory dir err)]
                              | Inr dirents \<Rightarrow> [])
                     matchedDirs)"
proof -
  have w: "filter is_warning (concat (map (dir_console env language) matchedDirs)) =
        concat (map (\<lambda>dir. case listing env dir of
                               Inl err \<Rightarrow> [Warn (FailedToReadDirectory dir err)]
                             | Inr dirents \<Rightarrow> []) matchedDirs)"
    by (induction matchedDirs) (simp_all add: warnings_dir_console)
  have g: "dir_groups env language =
             (\<lambda>dir. case listing env dir of
                       Inl err \<Rightarrow> []
                     | Inr dirents \<Rightarrow> dirComponents dir language dirents)"
    by (rule ext) (simp add: dir_groups_def)
  show ?thesis
    using w by (simp add: resolveComponents_glob [OF assms] g)
qed

theorem glob_read_failure_isolated_witness:
  "isGlobPattern ''projects/*/src/i18n-keysets''
   \<and> glob demo_fs ''projects/*/src/i18n-keysets'' =
        Inr [''projects/project-a/src/i18n-keysets'', ''projects/project-b/src/i18n-keysets'']
   \<and> listing demo_fs ''projects/project-b/src/i18n-keysets'' = Inl (Rejected ''Permission denied'')
   \<and> fst (resolveComponents demo_fs ''projects/*/src/i18n-keysets'' ''en'') =
        Inr [\<lparr> name = ''project-a_component1'',
               source = ''projects/project-a/src/i18n-keysets/component1/en.json'',
               fileMask = ''projects/project-a/src/i18n-keysets/component1/*.json'' \<rparr>]
   \<and> filter is_warning (snd (resolveComponents demo_fs ''projects/*/src/i18n-keysets'' ''en'')) =
        [Warn (FailedToReadDirectory ''projects/project-b/src/i18n-keysets''
                 (Rejected ''Permission denied''))]"
proof -
  have h1: "isGlobPattern ''projects/*/src/i18n-keysets''" by code_simp
  have h2: "glob demo_fs ''projects/*/src/i18n-keysets'' =
        Inr [''projects/project-a/src/i18n-keysets'', ''projects/project-b/src/i18n-keysets'']"
    by code_simp
  have h3: "listing demo_fs ''projects/project-b/src/i18n-keysets'' = Inl (Rejected ''Permission denied'')"
    by code_simp
  have c1: "concat (map (\<lambda>dir. case listing demo_fs dir of
                                     Inl err \<Rightarrow> []
                                   | Inr dirents \<Rightarrow> dirComponents dir ''en'' dirents)
               [''projects/project-a/src/i18n-keysets'', ''projects/project-b/src/i18n-keysets''])
         = [\<lparr> name = ''project-a_component1'',
               source = ''projects/project-a/src/i18n-keysets/component1/en.json'',
               fileMask = ''projects/project-a/src/i18n-keysets/component1/*.json'' \<rparr>]"
    by code_simp
  have c2: "concat (map (\<lambda>dir. case listing demo_fs dir of
                                Inl err \<Rightarrow> [Warn (FailedToReadDirectory dir err)]
                              | Inr dirents \<Rightarrow> [])
               [''projects/project-a/src/i18n-keysets'', ''projects/project-b/src/i18n-keysets''])
         = [Warn (FailedToReadDirectory ''projects/project-b/src/i18n-keysets''
                 (Rejected ''Permission denied''))]"
    by code_simp
  from glob_read_failure_isolated [OF h1 h2, of "''en''"] c1 c2
  have "fst (resolveComponents demo_fs ''projects/*/src/i18n-keysets'' ''en'') =
        Inr [\<lparr> name = ''project-a_component1'',
               source = ''projects/project-a/src/i18n-keysets/component1/en.json'',
               fileMask = ''projects/project-a/src/i18n-keysets/component1/*.json'' \<rparr>]
   \<and> filter is_warning (snd (resolveComponents demo_fs ''projects/*/src/i18n-keysets'' ''en'')) =
        [Warn (FailedToReadDirectory ''projects/project-b/src/i18n-keysets''
                 (Rejected ''Permission denied''))]"
    by (simp only:)
  with h1 h2 h3 show ?thesis by (simp only: simp_thms)
qed


section \<open>Properties of the handlers\<close>

subsection \<open>Steps and their events\<close>

lemma awaitE:
  assumes "await m k p = (r, p', t)"
  obtains (rejected) e where "m p = (Inl e, p', t)" "r = Inl e"
        | (continued) x p1 t1 t2 where "m p = (Inr x, p1, t1)" "k x p1 = (r, p', t2)" "t = t1 @ t2"
  using assms unfolding await_def by (auto split: prod.splits sum.splits)

lemma promise_all_calls:
  "promise_all (map (\<lambda>x. call (ev x) (f x)) xs) p = (r, p', t) \<Longrightarrow> map fst t = map ev xs"
proof (induction xs arbitrary: p r p' t)
  case Nil
  then show ?case by simp
next
  case (Cons x xs)
  then show ?case
    by (auto simp: call_def split: prod.splits)
qed

lemma promise_all_creates:
  assumes "promise_all (map (\<lambda>x. call (CreateComponent (g x)) (f x)) xs) p = (r, p', t)"
  shows "map fst t = map (\<lambda>x. CreateComponent (g x)) xs
       \<and> list_all (\<lambda>e. is_createComponent (fst e)) t"
proof -
  from promise_all_calls [OF assms] have m: "map fst t = map (\<lambda>x. CreateComponent (g x)) xs" .
  then have "list_all is_createComponent (map fst t)" by (simp add: list_all_iff)
  then have "list_all (\<lambda>e. is_createComponent (fst e)) t" by (simp add: list_all_iff)
  with m show ?thesis by simp
qed

lemma discover_console:
  "discover env config p = (r, p', t) \<Longrightarrow>
     p' = p \<and> r = fst (resolveComponents env (keysetsPath config) (mainLanguage config))
     \<and> list_all (\<lambda>e. is_console (fst e)) t"
  by (auto simp: discover_def list_all_iff split: prod.splits)

lemma find_append_cases:
  "find P (xs @ ys) = (case find P xs of None \<Rightarrow> find P ys | Some x \<Rightarrow> Some x)"
  by (induction xs) auto

lemma dropWhile_append_find:
  "dropWhile (\<lambda>e. \<not> P e) (xs @ ys) =
     (case find P xs of
        None \<Rightarrow> dropWhile (\<lambda>e. \<not> P e) ys
      | Some x \<Rightarrow> dropWhile (\<lambda>e. \<not> P e) xs @ ys)"
  by (induction xs) (auto split: option.splits)

lemma find_none_creates:
  "list_all (\<lambda>e. is_createComponent (fst e)) t \<Longrightarrow> (\<And>a. \<not> P (CreateComponent a))
   \<Longrightarrow> find (\<lambda>e. P (fst e)) t = None"
proof (induction t)
  case Nil
  then show ?case by simp
next
  case (Cons e t)
  then show ?case by (cases "fst e") auto
qed

lemma find_none_console:
  "list_all (\<lambda>e. is_console (fst e)) t \<Longrightarrow> (\<And>c. \<not> P (Console c))
   \<Longrightarrow> find (\<lambda>e. P (fst e)) t = None"
proof (induction t)
  case Nil
  then show ?case by simp
next
  case (Cons e t)
  then show ?case by (cases "fst e") auto
qed

lemma failures_append: "failures (xs @ ys) = failures xs @ failures ys"
  by (induction xs rule: failures.induct) auto

lemma create_args_append: "create_args (xs @ ys) = create_args xs @ create_args ys"
  by (induction xs rule: create_args.induct) auto

lemma failures_creates:
  "list_all (\<lambda>e. is_createComponent (fst e)) t \<Longrightarrow> failures (map fst t) = []"
proof (induction t)
  case Nil
  then show ?case by simp
next
  case (Cons e t)
  then show ?case by (cases "fst e") auto
qed

lemma failures_console:
  "list_all (\<lambda>e. is_console (fst e)) t \<Longrightarrow> failures (map fst t) = []"
proof (induction t)
  case Nil
  then show ?case by simp
next
  case (Cons e t)
  then show ?case by (cases "fst e") auto
qed

lemma create_args_console:
  "list_all (\<lambda>e. is_console (fst e)) t \<Longrightarrow> create_args (map fst t) = []"
proof (induction t)
  case Nil
  then show ?case by simp
next
  case (Cons e t)
  then show ?case by (cases "fst e") auto
qed

lemma create_args_creates: "create_args (map (\<lambda>x. CreateComponent (g x)) xs) = map g xs"
  by (induction xs) auto

lemma failures_create_map: "failures (map (\<lambda>x. CreateComponent (g x)) xs) = []"
  by (induction xs) auto

lemmas trace_simps =
  find_append_cases dropWhile_append_find find_none_creates find_none_console
  failures_append create_args_append failures_creates failures_console
  create_args_console create_args_creates failures_create_map

lemmas step_defs =
  throw_def call_def ask_def emit_def resolved_def setFailed_def console_log_def
  console_warn_def comment_and_fail_def

subsection \<open>An empty discovery\<close>



lemma mainMasterComponent_None: "mainMasterComponent ms = None \<Longrightarrow> ms = []"
  by (auto simp: mainMasterComponent_def split: option.splits list.splits)

lemma copy_calls:
  "map (\<lambda>component.
          case mainMasterComponent ms of
            None \<Rightarrow> throw e
          | Some main \<Rightarrow> call (ev main component) (f main component)) ms
   = (case mainMasterComponent ms of
        None \<Rightarrow> []
      | Some main \<Rightarrow> map (\<lambda>component. call (ev main component) (f main component)) ms)"
  by (cases "mainMasterComponent ms") (auto dest: mainMasterComponent_None)

lemma validatePullRequest_copy_events:
  assumes "validatePullRequest_copy weblate config category found p = (r, p', t)"
  shows "find (\<lambda>e. is_setFailed (fst e)) t = None
       \<and> find (\<lambda>e. is_discovery_start (fst e)) t = None
       \<and> find (\<lambda>e. is_health (fst e)) t = None
       \<and> find (\<lambda>e. is_resolved_log (fst e)) t = None
       \<and> failures (map fst t) = []"
  using assms unfolding validatePullRequest_copy_def copy_calls
  by (auto elim!: awaitE dest!: promise_all_creates simp: step_defs trace_simps
        split: sum.splits prod.splits option.splits)


lemma health_answer_Nil: "health_answer weblate config [] = None"
  by (simp add: health_answer_def)

lemma health_answer_Cons:
  "\<not> is_health (fst e) \<Longrightarrow> health_answer weblate config (e # t) = health_answer weblate config t"
  by (simp add: health_answer_def)

lemma health_answer_here:
  "health_answer weblate config ((GetComponentRepositoryErrors n s, q) # t) =
     Some (getComponentRepositoryErrors weblate n s config q)"
  by (simp add: health_answer_def)

lemma health_answer_append:
  "find (\<lambda>e. is_health (fst e)) pre = None \<Longrightarrow>
     health_answer weblate config (pre @ t) = health_answer weblate config t"
  by (simp add: health_answer_def find_append_cases)

lemma health_answer_absent:
  "find (\<lambda>e. is_health (fst e)) t = None \<Longrightarrow> health_answer weblate config t = None"
  by (simp add: health_answer_def)

lemma events_after_Nil: "events_after P [] = []"
  by (simp add: events_after_def)

lemma events_after_Cons:
  "\<not> P (fst e) \<Longrightarrow> events_after P (e # t) = events_after P t"
  by (simp add: events_after_def)

lemma events_after_here:
  "P (fst e) \<Longrightarrow> events_after P (e # t) = t"
  by (simp add: events_after_def)

lemma events_after_append:
  "find (\<lambda>e. P (fst e)) pre = None \<Longrightarrow> events_after P (pre @ t) = events_after P t"
  by (simp add: events_after_def dropWhile_append_find)

lemmas folded_simps =
  health_answer_Nil health_answer_Cons health_answer_here health_answer_append
  health_answer_absent
  events_after_Nil events_after_Cons events_after_here events_after_append
  find_none_creates find_none_console
  failures_append create_args_append failures_creates failures_console
  create_args_console create_args_creates failures_create_map

lemma syncMaster_reconcile_health:
  assumes "syncMaster_reconcile weblate env config category p = (r, p', t)"
      and "health_answer weblate config t = Some (Inr re)"
  shows "(\<exists>q. syncMaster_health re q = (r, p', events_after is_health t))
       \<and> failures (map fst t) = failures (map fst (events_after is_health t))"
  using assms unfolding syncMaster_reconcile_def
  apply (auto elim!: awaitE dest!: discover_console promise_all_creates
        simp: step_defs folded_simps Let_def
        split: list.splits prod.splits sum.splits option.splits)
   apply blast+
  done

lemma syncMaster_health_reached:
  assumes "syncMaster weblate env config p = (r, p', t)"
      and "health_answer weblate config t = Some (Inr re)"
  shows "(\<exists>q. syncMaster_health re q = (r, p', events_after is_health t))
       \<and> failures (map fst t) = failures (map fst (events_after is_health t))"
  using assms unfolding syncMaster_def
  apply (auto elim!: awaitE simp: step_defs folded_simps
        split: prod.splits sum.splits option.splits if_splits)
  apply (frule (1) syncMaster_reconcile_health, simp)+
  done

lemma validatePullRequest_reconcile_health:
  assumes "validatePullRequest_reconcile weblate env config category p = (r, p', t)"
      and "health_answer weblate config t = Some (Inr re)"
  shows "(\<exists>q ws. validatePullRequest_health weblate config category ws re q
                    = (r, p', events_after is_health t))
       \<and> failures (map fst t) = failures (map fst (events_after is_health t))"
  using assms unfolding validatePullRequest_reconcile_def
  apply (auto elim!: awaitE dest!: discover_console promise_all_creates
        simp: step_defs folded_simps Let_def
        split: list.splits prod.splits sum.splits option.splits if_splits)
   apply blast+
  done

lemma validatePullRequest_health_reached:
  assumes "validatePullRequest weblate env config p = (r, p', t)"
      and "health_answer weblate config t = Some (Inr re)"
  shows "(\<exists>q category ws. validatePullRequest_health weblate config category ws re q
                    = (r, p', events_after is_health t))
       \<and> failures (map fst t) = failures (map fst (events_after is_health t))"
  using assms unfolding validatePullRequest_def
  apply (auto elim!: awaitE dest!: validatePullRequest_copy_events
        simp: step_defs folded_simps
        split: prod.splits sum.splits option.splits if_splits)
  apply (frule (1) validatePullRequest_reconcile_health, auto)+
  done

lemma removeBranch_no_health:
  "removeBranch weblate env config p = (r, p', t) \<Longrightarrow> health_answer weblate config t = None"
  unfolding removeBranch_def
  by (auto elim!: awaitE simp: step_defs folded_simps split: prod.splits sum.splits option.splits)

lemma run_health_reached:
  assumes "run weblate env config p = (r, p', t)"
      and "health_answer weblate config t = Some (Inr re)"
  shows "(mode config = SYNC_MASTER
          \<and> (\<exists>q. syncMaster_health re q = (r, p', events_after is_health t))
          \<and> failures (map fst t) = failures (map fst (events_after is_health t)))
       \<or> (mode config = VALIDATE_PULL_REQUEST
          \<and> (\<exists>q category ws. validatePullRequest_health weblate config category ws re q
                    = (r, p', events_after is_health t))
          \<and> failures (map fst t) = failures (map fst (events_after is_health t)))"
proof -
  from assms(1) obtain t' where
    h: "modeToHandler (mode config) weblate env config p = (r, p', t')"
    and t: "t = (Console (Log ConfigHeading), p) # (Console (Log ConfigJson), p) # t'"
    unfolding run_def by (auto elim!: awaitE simp: step_defs)
  from assms(2) t have a: "health_answer weblate config t' = Some (Inr re)"
    by (simp add: folded_simps)
  have e: "events_after is_health t = events_after is_health t'"
    using t by (simp add: folded_simps)
  have f: "failures (map fst t) = failures (map fst t')"
    using t by simp
  show ?thesis
  proof (cases "mode config")
    case SYNC_MASTER
    with h have "syncMaster weblate env config p = (r, p', t')" by simp
    from syncMaster_health_reached [OF this a] SYNC_MASTER e f show ?thesis by simp
  next
    case VALIDATE_PULL_REQUEST
    with h have "validatePullRequest weblate env config p = (r, p', t')" by simp
    from validatePullRequest_health_reached [OF this a] VALIDATE_PULL_REQUEST e f
    show ?thesis by simp
  next
    case REMOVE_BRANCH
    with h have "removeBranch weblate env config p = (r, p', t')" by simp
    from removeBranch_no_health [OF this] a show ?thesis by simp
  qed
qed


subsection \<open>The claims about the repository check\<close>

text \<open>
  C5. In a run of any mode whose repository check answers with a merge failure (a
  non-empty message), the handler does nothing for the other two conditions: after the
  check, sync-trunk only marks the run failed with the merge message and returns;
  validate-pull-request posts the merge message as a comment, marks the run failed with
  it and returns (when the hosting service rejects the comment, the run ends with that
  rejection and nothing else is done). The remove-branch handler makes no repository
  check.
\<close>

theorem merge_failure_stops_handler:
  assumes "run weblate env config p = (r, p', t)"
      and "health_answer weblate config t = Some (Inr repositoryErrors)"
      and "truthy_opt (mergeFailureError repositoryErrors)"
  shows "(mode config = SYNC_MASTER \<and> r = Inr ()
          \<and> map fst (events_after is_health t) =
                [SetFailed (text_of (mergeFailureError repositoryErrors))])
       \<or> (mode config = VALIDATE_PULL_REQUEST \<and> r = Inr ()
          \<and> map fst (events_after is_health t) =
                [CreateComment (pullRequestNumber config)
                   (text_of (mergeFailureError repositoryErrors)),
                 SetFailed (text_of (mergeFailureError repositoryErrors))])
       \<or> (mode config = VALIDATE_PULL_REQUEST \<and> isl r
          \<and> map fst (events_after is_health t) =
                [CreateComment (pullRequestNumber config)
                   (text_of (mergeFailureError repositoryErrors))])"
proof -
  define post where "post = events_after is_health t"
  have "(mode config = SYNC_MASTER
          \<and> (\<exists>q. syncMaster_health repositoryErrors q = (r, p', post)))
       \<or> (mode config = VALIDATE_PULL_REQUEST
          \<and> (\<exists>q category ws.
                validatePullRequest_health weblate config category ws repositoryErrors q
                  = (r, p', post)))"
    using run_health_reached [OF assms(1,2)] by (auto simp: post_def)
  then show ?thesis
    unfolding post_def [symmetric] using assms(3)
    by (auto simp: syncMaster_health_def validatePullRequest_health_def step_defs
          elim!: awaitE split: prod.splits sum.splits)
qed

theorem merge_failure_stops_handler_witness:
  "health_answer demo_services demo_sync_config
       (snd (snd (run demo_services demo_fs demo_sync_config demo_conflict)))
     = Some (Inr (st_repository demo_conflict))
   \<and> truthy_opt (mergeFailureError (st_repository demo_conflict))
   \<and> truthy_opt (needsCommitError (st_repository demo_conflict))
   \<and> truthy_opt (needsPushError (st_repository demo_conflict))
   \<and> fst (run demo_services demo_fs demo_sync_config demo_conflict) = Inr ()
   \<and> map fst (events_after is_health
        (snd (snd (run demo_services demo_fs demo_sync_config demo_conflict))))
     = [SetFailed ''Merge failed'']
   \<and> health_answer demo_services demo_pr_config
       (snd (snd (run demo_services demo_fs demo_pr_config demo_pr_conflict)))
     = Some (Inr (st_repository demo_conflict))
   \<and> fst (run demo_services demo_fs demo_pr_config demo_pr_conflict) = Inr ()
   \<and> map fst (events_after is_health
        (snd (snd (run demo_services demo_fs demo_pr_config demo_pr_conflict))))
     = [CreateComment (Some 42) ''Merge failed'', SetFailed ''Merge failed'']"
proof -
  have s1: "run demo_services demo_fs demo_sync_config demo_conflict =
      (fst (run demo_services demo_fs demo_sync_config demo_conflict),
       fst (snd (run demo_services demo_fs demo_sync_config demo_conflict)),
       snd (snd (run demo_services demo_fs demo_sync_config demo_conflict)))"
    by simp
  have s2: "health_answer demo_services demo_sync_config
       (snd (snd (run demo_services demo_fs demo_sync_config demo_conflict)))
     = Some (Inr (st_repository demo_conflict))"
    by code_simp
  have q1: "run demo_services demo_fs demo_pr_config demo_pr_conflict =
      (fst (run demo_services demo_fs demo_pr_config demo_pr_conflict),
       fst (snd (run demo_services demo_fs demo_pr_config demo_pr_conflict)),
       snd (snd (run demo_services demo_fs demo_pr_config demo_pr_conflict)))"
    by simp
  have q2: "health_answer demo_services demo_pr_config
       (snd (snd (run demo_services demo_fs demo_pr_config demo_pr_conflict)))
     = Some (Inr (st_repository demo_conflict))"
    by code_simp
  have h3: "truthy_opt (mergeFailureError (st_repository demo_conflict))"
    by code_simp
  have h4: "truthy_opt (needsCommitError (st_repository demo_conflict))
   \<and> truthy_opt (needsPushError (st_repository demo_conflict))"
    by code_simp
  have m: "mode demo_sync_config = SYNC_MASTER" "mode demo_pr_config = VALIDATE_PULL_REQUEST"
    "pullRequestNumber demo_pr_config = Some 42"
    by code_simp+
  have x: "text_of (mergeFailureError (st_repository demo_conflict)) = ''Merge failed''"
    by code_simp
  have ok: "fst (run demo_services demo_fs demo_pr_config demo_pr_conflict) = Inr ()"
    by code_simp
  from merge_failure_stops_handler [OF s1 s2 h3] m x
  have a: "fst (run demo_services demo_fs demo_sync_config demo_conflict) = Inr ()
   \<and> map fst (events_after is_health
        (snd (snd (run demo_services demo_fs demo_sync_config demo_conflict))))
     = [SetFailed ''Merge failed'']"
    by simp
  from merge_failure_stops_handler [OF q1 q2 h3] m x ok
  have b: "map fst (events_after is_health
        (snd (snd (run demo_services demo_fs demo_pr_config demo_pr_conflict))))
     = [CreateComment (Some 42) ''Merge failed'', SetFailed ''Merge failed'']"
    by simp
  from s2 q2 h3 h4 a b ok show ?thesis by (simp only: simp_thms)
qed

text \<open>
  C2, as the code has it. When the repository check reports uncommitted changes and no
  merge failure: sync-trunk writes a warning and does not mark the run failed for it (the
  run is marked failed only when unpushed commits are reported as well, with the message
  about unpushed commits); validate-pull-request posts the message about the uncommitted
  changes as a comment and marks the run failed with it.
\<close>

theorem uncommitted_changes_by_mode:
  assumes "run weblate env config p = (r, p', t)"
      and "health_answer weblate config t = Some (Inr repositoryErrors)"
      and "\<not> truthy_opt (mergeFailureError repositoryErrors)"
      and "truthy_opt (needsCommitError repositoryErrors)"
  shows "(mode config = SYNC_MASTER \<and> r = Inr ()
          \<and> map fst (events_after is_health t) =
                Console (Warn SyncMasterUncommittedChanges)
                # (if truthy_opt (needsPushError repositoryErrors)
                   then [SetFailed syncMaster_unpushed_message] else [])
          \<and> failures (map fst t) =
                (if truthy_opt (needsPushError repositoryErrors)
                 then [syncMaster_unpushed_message] else []))
       \<or> (mode config = VALIDATE_PULL_REQUEST \<and> r = Inr ()
          \<and> map fst (events_after is_health t) =
                [CreateComment (pullRequestNumber config)
                   (text_of (needsCommitError repositoryErrors)),
                 SetFailed (text_of (needsCommitError repositoryErrors))]
          \<and> failures (map fst t) = [text_of (needsCommitError repositoryErrors)])
       \<or> (mode config = VALIDATE_PULL_REQUEST \<and> isl r
          \<and> map fst (events_after is_health t) =
                [CreateComment (pullRequestNumber config)
                   (text_of (needsCommitError repositoryErrors))]
          \<and> failures (map fst t) = [])"
proof -
  define post where "post = events_after is_health t"
  have "(mode config = SYNC_MASTER
          \<and> (\<exists>q. syncMaster_health repositoryErrors q = (r, p', post))
          \<and> failures (map fst t) = failures (map fst post))
       \<or> (mode config = VALIDATE_PULL_REQUEST
          \<and> (\<exists>q category ws.
                validatePullRequest_health weblate config category ws repositoryErrors q
                  = (r, p', post))
          \<and> failures (map fst t) = failures (map fst post))"
    using run_health_reached [OF assms(1,2)] by (auto simp: post_def)
  then show ?thesis
    unfolding post_def [symmetric] using assms(3,4)
    by (auto simp: syncMaster_health_def validatePullRequest_health_def step_defs
          elim!: awaitE split: prod.splits sum.splits if_splits)
qed

theorem uncommitted_changes_by_mode_witness:
  "health_answer demo_services demo_sync_config
       (snd (snd (run demo_services demo_fs demo_sync_config demo_trunk_uncommitted)))
     = Some (Inr (st_repository demo_uncommitted))
   \<and> \<not> truthy_opt (mergeFailureError (st_repository demo_uncommitted))
   \<and> truthy_opt (needsCommitError (st_repository demo_uncommitted))
   \<and> fst (run demo_services demo_fs demo_sync_config demo_trunk_uncommitted) = Inr ()
   \<and> map fst (events_after is_health
        (snd (snd (run demo_services demo_fs demo_sync_config demo_trunk_uncommitted))))
     = [Console (Warn SyncMasterUncommittedChanges)]
   \<and> failures (map fst
        (snd (snd (run demo_services demo_fs demo_sync_config demo_trunk_uncommitted))))
     = []
   \<and> health_answer demo_services demo_pr_config
       (snd (snd (run demo_services demo_fs demo_pr_config demo_uncommitted)))
     = Some (Inr (st_repository demo_uncommitted))
   \<and> fst (run demo_services demo_fs demo_pr_config demo_uncommitted) = Inr ()
   \<and> failures (map fst
        (snd (snd (run demo_services demo_fs demo_pr_config demo_uncommitted))))
     = [''Uncommitted changes'']"
proof -
  have s1: "run demo_services demo_fs demo_sync_config demo_trunk_uncommitted =
      (fst (run demo_services demo_fs demo_sync_config demo_trunk_uncommitted),
       fst (snd (run demo_services demo_fs demo_sync_config demo_trunk_uncommitted)),
       snd (snd (run demo_services demo_fs demo_sync_config demo_trunk_uncommitted)))"
    by simp
  have s2: "health_answer demo_services demo_sync_config
       (snd (snd (run demo_services demo_fs demo_sync_config demo_trunk_uncommitted)))
     = Some (Inr (st_repository demo_uncommitted))"
    by code_simp
  have q1: "run demo_services demo_fs demo_pr_config demo_uncommitted =
      (fst (run demo_services demo_fs demo_pr_config demo_uncommitted),
       fst (snd (run demo_services demo_fs demo_pr_config demo_uncommitted)),
       snd (snd (run demo_services demo_fs demo_pr_config demo_uncommitted)))"
    by simp
  have q2: "health_answer demo_services demo_pr_config
       (snd (snd (run demo_services demo_fs demo_pr_config demo_uncommitted)))
     = Some (Inr (st_repository demo_uncommitted))"
    by code_simp
  have h3: "\<not> truthy_opt (mergeFailureError (st_repository demo_uncommitted))"
    by code_simp
  have h4: "truthy_opt (needsCommitError (st_repository demo_uncommitted))"
    by code_simp
  have m: "mode demo_sync_config = SYNC_MASTER" "mode demo_pr_config = VALIDATE_PULL_REQUEST"
    by code_simp+
  have x: "\<not> truthy_opt (needsPushError (st_repository demo_uncommitted))"
    "text_of (needsCommitError (st_repository demo_uncommitted)) = ''Uncommitted changes''"
    by code_simp+
  have ok: "fst (run demo_services demo_fs demo_pr_config demo_uncommitted) = Inr ()"
    by code_simp
  from uncommitted_changes_by_mode [OF s1 s2 h3 h4] m x
  have a: "fst (run demo_services demo_fs demo_sync_config demo_trunk_uncommitted) = Inr ()
   \<and> map fst (events_after is_health
        (snd (snd (run demo_services demo_fs demo_sync_config demo_trunk_uncommitted))))
     = [Console (Warn SyncMasterUncommittedChanges)]
   \<and> failures (map fst
        (snd (snd (run demo_services demo_fs demo_sync_config demo_trunk_uncommitted)))) = []"
    by simp
  from uncommitted_changes_by_mode [OF q1 q2 h3 h4] m x ok
  have b: "failures (map fst
        (snd (snd (run demo_services demo_fs demo_pr_config demo_uncommitted))))
     = [''Uncommitted changes'']"
    by simp
  from s2 q2 h3 h4 a b ok show ?thesis by (simp only: simp_thms)
qed

text \<open>
  C2 fails as stated: in validate-pull-request mode the repository check reports
  uncommitted changes and no merge failure, and the handler posts a comment and marks the
  run failed with the message about the uncommitted changes; no warning is written.
\<close>

theorem uncommitted_changes_fail_pull_request:
  "mode demo_pr_config = VALIDATE_PULL_REQUEST
   \<and> health_answer demo_services demo_pr_config
        (snd (snd (run demo_services demo_fs demo_pr_config demo_uncommitted)))
      = Some (Inr \<lparr> mergeFailureError = None,
                    needsCommitError = Some ''Uncommitted changes'',
                    needsPushError = None \<rparr>)
   \<and> map fst (events_after is_health
        (snd (snd (run demo_services demo_fs demo_pr_config demo_uncommitted))))
      = [CreateComment (Some 42) ''Uncommitted changes'', SetFailed ''Uncommitted changes'']
   \<and> failures (map fst (snd (snd (run demo_services demo_fs demo_pr_config demo_uncommitted))))
      = [''Uncommitted changes'']"
  by code_simp

subsection \<open>An empty discovery inside a run\<close>








subsection \<open>The update flag of the creation calls\<close>

lemma dir_console_discovery: "list_all is_discovery_console (dir_console env lang d)"
  by (simp add: dir_console_def split: sum.splits)

lemma resolveComponents_console:
  "list_all is_discovery_console (snd (resolveComponents env p lang))"
proof (cases "isGlobPattern p")
  case True
  show ?thesis
  proof (cases "glob env p")
    case (Inl err)
    with True show ?thesis by (simp add: resolveComponents_def)
  next
    case (Inr dirs)
    have "list_all is_discovery_console (concat (map (dir_console env lang) dirs))"
      by (induction dirs) (simp_all add: dir_console_discovery)
    then show ?thesis
      by (simp add: resolveComponents_glob [OF True Inr])
  qed
next
  case False
  then show ?thesis
    by (cases "readdir env (path_resolve (cwd env) [cwd env, p])")
       (simp_all add: resolveComponents_def Let_def)
qed

lemma discover_no_resolved_log:
  assumes "discover env config p = (r, p', t)"
  shows "find (\<lambda>e. is_resolved_log (fst e)) t = None"
proof -
  have "find (\<lambda>e. is_resolved_log (fst e)) (map (\<lambda>c. (Console c, p)) out) = None"
    if "list_all is_discovery_console out" for out
    using that
  proof (induction out)
    case Nil
    then show ?case by simp
  next
    case (Cons c out)
    then show ?case by (cases c rule: is_discovery_console.cases) auto
  qed
  from this [OF resolveComponents_console]
  have "find (\<lambda>e. is_resolved_log (fst e))
          (map (\<lambda>c. (Console c, p))
             (snd (resolveComponents env (keysetsPath config) (mainLanguage config)))) = None" .
  moreover from assms have "t = map (\<lambda>c. (Console c, p))
             (snd (resolveComponents env (keysetsPath config) (mainLanguage config)))"
    by (auto simp: discover_def split: prod.splits)
  ultimately show ?thesis by simp
qed

lemma discover_steps:
  "discover env config p = (r, p', t) \<Longrightarrow>
     p' = p \<and> r = fst (resolveComponents env (keysetsPath config) (mainLanguage config))
     \<and> list_all (\<lambda>e. is_console (fst e)) t
     \<and> find (\<lambda>e. is_resolved_log (fst e)) t = None"
proof -
  assume a: "discover env config p = (r, p', t)"
  from discover_console [OF a] discover_no_resolved_log [OF a] show ?thesis by simp
qed

lemma events_after_absent:
  "find (\<lambda>e. P (fst e)) t = None \<Longrightarrow> events_after P t = []"
  using events_after_append [of P t "[]"] by (simp add: events_after_Nil)

lemma other_args_flag:
  "list_all (\<lambda>a. arg_updateIfExist a = Some (wasRecentlyCreated category))
     (map (validate_other_args config category first) xs)"
  by (simp add: list_all_iff validate_other_args_def)

lemma validatePullRequest_reconcile_flag:
  assumes "validatePullRequest_reconcile weblate env config category p = (r, p', t)"
  shows "list_all (\<lambda>a. arg_updateIfExist a = Some (wasRecentlyCreated category))
           (create_args (map fst (events_after is_resolved_log t)))"
  using assms unfolding validatePullRequest_reconcile_def
  by (auto elim!: awaitE dest!: discover_steps promise_all_creates
        simp: step_defs folded_simps Let_def validatePullRequest_health_def
              validate_first_args_def other_args_flag events_after_absent
        split: list.splits prod.splits sum.splits option.splits if_splits)

lemma validatePullRequest_flag:
  assumes "validatePullRequest weblate env config p = (r, p', t)"
      and "fst (createCategoryForBranch weblate (pr_branch config) p) = Inr category"
  shows "list_all (\<lambda>a. arg_updateIfExist a = Some (wasRecentlyCreated category))
           (create_args (map fst (events_after is_resolved_log t)))"
  using assms unfolding validatePullRequest_def
  apply (auto elim!: awaitE dest!: validatePullRequest_copy_events
        simp: step_defs folded_simps events_after_absent
        split: prod.splits sum.splits option.splits if_splits)
  apply (frule validatePullRequest_reconcile_flag, simp)+
  done

text \<open>
  C4, as the code has it. In validate-pull-request mode every creation call issued after
  discovery (the first component and the linked ones) passes the update-if-exists flag,
  and its value is \<open>wasRecentlyCreated\<close> of the category: the flag is set exactly when
  this run created the category, and cleared when the category already existed.
\<close>

theorem update_flag_is_recently_created:
  assumes "mode config = VALIDATE_PULL_REQUEST"
      and "run weblate env config p = (r, p', t)"
      and "fst (createCategoryForBranch weblate (pr_branch config) p) = Inr category"
  shows "list_all (\<lambda>a. arg_updateIfExist a = Some (wasRecentlyCreated category))
           (create_args (map fst (events_after is_resolved_log t)))"
proof -
  from assms(2) obtain t' where
    h: "modeToHandler (mode config) weblate env config p = (r, p', t')"
    and t: "t = (Console (Log ConfigHeading), p) # (Console (Log ConfigJson), p) # t'"
    unfolding run_def by (auto elim!: awaitE simp: step_defs)
  from h assms(1) have "validatePullRequest weblate env config p = (r, p', t')" by simp
  from validatePullRequest_flag [OF this assms(3)] t show ?thesis
    by (simp add: folded_simps)
qed

theorem update_flag_is_recently_created_witness:
  "mode demo_pr_config = VALIDATE_PULL_REQUEST
   \<and> fst (createCategoryForBranch demo_services (pr_branch demo_pr_config) demo_trunk)
        = Inr \<lparr> cat_id = 2, cat_slug = ''feature__42'', wasRecentlyCreated = True \<rparr>
   \<and> list_all (\<lambda>a. arg_updateIfExist a = Some True)
        (create_args (map fst (events_after is_resolved_log
           (snd (snd (run demo_services demo_fs demo_pr_config demo_trunk))))))
   \<and> map arg_name
        (create_args (map fst (events_after is_resolved_log
           (snd (snd (run demo_services demo_fs demo_pr_config demo_trunk))))))
        = [''component1__42'', ''component2__42'']"
proof -
  have h1: "mode demo_pr_config = VALIDATE_PULL_REQUEST" by code_simp
  have h2: "run demo_services demo_fs demo_pr_config demo_trunk =
      (fst (run demo_services demo_fs demo_pr_config demo_trunk),
       fst (snd (run demo_services demo_fs demo_pr_config demo_trunk)),
       snd (snd (run demo_services demo_fs demo_pr_config demo_trunk)))"
    by simp
  have h3: "fst (createCategoryForBranch demo_services (pr_branch demo_pr_config) demo_trunk)
        = Inr \<lparr> cat_id = 2, cat_slug = ''feature__42'', wasRecentlyCreated = True \<rparr>"
    by code_simp
  have n: "map arg_name
        (create_args (map fst (events_after is_resolved_log
           (snd (snd (run demo_services demo_fs demo_pr_config demo_trunk))))))
        = [''component1__42'', ''component2__42'']"
    by code_simp
  from update_flag_is_recently_created [OF h1 h2 h3]
  have "list_all (\<lambda>a. arg_updateIfExist a = Some True)
        (create_args (map fst (events_after is_resolved_log
           (snd (snd (run demo_services demo_fs demo_pr_config demo_trunk))))))"
    by simp
  with h1 h3 n show ?thesis by (simp only: simp_thms)
qed

text \<open>
  C4 fails as stated: the category of the pull request already existed, and both creation
  calls of the reconciliation pass the flag cleared.
\<close>

theorem update_flag_cleared_for_existing_category:
  "fst (createCategoryForBranch demo_services (pr_branch demo_pr_config) demo_reopened)
     = Inr \<lparr> cat_id = 2, cat_slug = ''feature__42'', wasRecentlyCreated = False \<rparr>
   \<and> map arg_name
        (create_args (map fst (events_after is_resolved_log
           (snd (snd (run demo_services demo_fs demo_pr_config demo_reopened))))))
        = [''component1__42'', ''component2__42'']
   \<and> map arg_updateIfExist
        (create_args (map fst (events_after is_resolved_log
           (snd (snd (run demo_services demo_fs demo_pr_config demo_reopened))))))
        = [Some False, Some False]"
  by code_simp

subsection \<open>remove-branch\<close>

lemma removed_ids_append: "removed_ids (xs @ ys) = removed_ids xs @ removed_ids ys"
  by (induction xs rule: removed_ids.induct) auto

text \<open>
  C9. For every configuration (branch name and pull-request number): when no category of
  the name \<open><branch>__<prNumber>\<close> exists, the handler succeeds, leaves the platform as
  it was and calls \<open>removeCategory\<close> not at all; when the category exists, it calls
  \<open>removeCategory\<close> exactly once, with the identifier of that category, and the state of
  the platform after the run is the state after that call. On a platform that no longer
  finds a category it has removed, a second run right after a first one that succeeded
  succeeds, leaves the platform as the first left it, and removes nothing.
\<close>

theorem removeBranch_once:
  "(findCategoryForBranch weblate (pr_branch config) p = Inr None \<longrightarrow>
       fst (removeBranch weblate env config p) = Inr ()
     \<and> fst (snd (removeBranch weblate env config p)) = p
     \<and> removed_ids (map fst (snd (snd (removeBranch weblate env config p)))) = [])
   \<and> (findCategoryForBranch weblate (pr_branch config) p = Inr (Some found) \<longrightarrow>
       removed_ids (map fst (snd (snd (removeBranch weblate env config p)))) = [cat_id found]
     \<and> fst (snd (removeBranch weblate env config p)) = snd (removeCategory weblate (cat_id found) p)
     \<and> fst (removeBranch weblate env config p) = fst (removeCategory weblate (cat_id found) p))
   \<and> (findCategoryForBranch weblate (pr_branch config) p = Inr (Some found)
       \<and> removeCategory weblate (cat_id found) p = (Inr (), p1)
       \<and> findCategoryForBranch weblate (pr_branch config) p1 = Inr None \<longrightarrow>
       fst (snd (removeBranch weblate env config p)) = p1
     \<and> fst (removeBranch weblate env config p1) = Inr ()
     \<and> fst (snd (removeBranch weblate env config p1)) = p1
     \<and> removed_ids (map fst (snd (snd (removeBranch weblate env config p))
                              @ snd (snd (removeBranch weblate env config p1))))
         = [cat_id found])"
  unfolding removeBranch_def
  by (auto simp: await_def step_defs split: prod.splits sum.splits option.splits)

theorem removeBranch_once_witness:
  "findCategoryForBranch demo_services (pr_branch demo_remove_config) demo_trunk = Inr None
   \<and> fst (removeBranch demo_services demo_fs demo_remove_config demo_trunk) = Inr ()
   \<and> fst (snd (removeBranch demo_services demo_fs demo_remove_config demo_trunk)) = demo_trunk
   \<and> findCategoryForBranch demo_services (pr_branch demo_remove_config) demo_reopened
        = Inr (Some \<lparr> cat_id = 2, cat_slug = ''feature__42'' \<rparr>)
   \<and> removeCategory demo_services 2 demo_reopened = (Inr (), demo_trunk)
   \<and> removed_ids (map fst (snd (snd (removeBranch demo_services demo_fs demo_remove_config demo_reopened))))
        = [2]
   \<and> fst (snd (removeBranch demo_services demo_fs demo_remove_config demo_reopened)) = demo_trunk
   \<and> removed_ids (map fst (snd (snd (removeBranch demo_services demo_fs demo_remove_config demo_reopened))
                            @ snd (snd (removeBranch demo_services demo_fs demo_remove_config demo_trunk))))
        = [2]"
proof -
  have h1: "findCategoryForBranch demo_services (pr_branch demo_remove_config) demo_trunk = Inr None"
    by code_simp
  have h2: "findCategoryForBranch demo_services (pr_branch demo_remove_config) demo_reopened
        = Inr (Some \<lparr> cat_id = 2, cat_slug = ''feature__42'' \<rparr>)"
    by code_simp
  have h3: "removeCategory demo_services (cat_id \<lparr> cat_id = 2, cat_slug = ''feature__42'' \<rparr>)
              demo_reopened = (Inr (), demo_trunk)"
    by code_simp
  have a: "fst (removeBranch demo_services demo_fs demo_remove_config demo_trunk) = Inr ()
     \<and> fst (snd (removeBranch demo_services demo_fs demo_remove_config demo_trunk)) = demo_trunk"
    using removeBranch_once [of demo_services demo_remove_config demo_trunk demo_fs] h1
    by blast
  have b: "removed_ids (map fst (snd (snd (removeBranch demo_services demo_fs demo_remove_config demo_reopened))))
        = [2]
   \<and> fst (snd (removeBranch demo_services demo_fs demo_remove_config demo_reopened)) = demo_trunk
   \<and> removed_ids (map fst (snd (snd (removeBranch demo_services demo_fs demo_remove_config demo_reopened))
                            @ snd (snd (removeBranch demo_services demo_fs demo_remove_config demo_trunk))))
        = [2]"
    using removeBranch_once [of demo_services demo_remove_config demo_reopened demo_fs
        "\<lparr> cat_id = 2, cat_slug = ''feature__42'' \<rparr>" demo_trunk] h1 h2 h3
    by simp
  have h3': "removeCategory demo_services 2 demo_reopened = (Inr (), demo_trunk)"
    using h3 by simp
  from h1 h2 h3' a b show ?thesis by (simp only: simp_thms)
qed

subsection \<open>The task barrier before the removal step\<close>

text \<open>
  C1 at an input where it fails. The category of pull request 42 exists from an earlier
  run and holds the components \<open>component1__42\<close> and \<open>stale__42\<close>; the code has the groups
  \<open>component1\<close> and \<open>component2\<close>. The one removal step of the run is issued right after a
  barrier over the names of the two components that this run created or updated, while
  the category held three components at that moment: \<open>stale__42\<close> is not waited for,
  by this barrier or by any other of the run.
\<close>

theorem pull_request_barrier_misses_component:
  "mode demo_pr_config = VALIDATE_PULL_REQUEST
   \<and> getComponentsInCategory demo_services 2 demo_reopened
        = Inr [trunk_component ''component1__42'' None,
               trunk_component ''stale__42'' (Some ''weblate://demo/feature__42/component1__42'')]
   \<and> waited_names (map fst (snd (snd (run demo_services demo_fs demo_pr_config demo_reopened))))
        = [[''component1__42'', ''component2__42'']]
   \<and> barrier_report demo_services None
        (snd (snd (run demo_services demo_fs demo_pr_config demo_reopened)))
        = [(Some [''component1__42'', ''component2__42''],
            Inr [''stale__42'', ''component1__42'', ''component2__42''])]"
  by code_simp

subsection \<open>Comments on the pull request before failing\<close>

text \<open>
  C3 at an input where it fails. The category of pull request 42 is new and the platform
  has no category for the trunk branch: the run is marked failed with the message that
  the category was not found, and no comment is posted on the pull request.
\<close>

theorem missing_trunk_category_not_commented:
  "mode demo_pr_config = VALIDATE_PULL_REQUEST
   \<and> map fst (snd (snd (run demo_services demo_fs demo_pr_config demo_empty)))
        = [Console (Log ConfigHeading), Console (Log ConfigJson),
           CreateCategoryForBranch ''feature__42'',
           Console (Log (CreatedBranch ''feature__42'')),
           FindCategoryForBranch ''master'',
           SetFailed (not_found_message demo_pr_config)]
   \<and> fst (run demo_services demo_fs demo_pr_config demo_empty) = Inr ()
   \<and> st_comments (fst (snd (run demo_services demo_fs demo_pr_config demo_empty))) = []
   \<and> uncommented_failures None
        (map fst (snd (snd (run demo_services demo_fs demo_pr_config demo_empty))))
        = [not_found_message demo_pr_config]"
  by code_simp


section \<open>The barrier of sync-trunk, and the comments of validate-pull-request\<close>

lemma barrier_report_step:
  "\<not> is_remove (fst e) \<Longrightarrow> barrier_report weblate prev (e # rest) = barrier_report weblate (Some e) rest"
  by (cases e; cases "fst e") auto

lemma barrier_report_quiet:
  "find (\<lambda>e. is_remove (fst e)) seg = None \<Longrightarrow>
     barrier_report weblate prev (seg @ rest) =
     barrier_report weblate (if seg = [] then prev else Some (last seg)) rest"
proof (induction seg arbitrary: prev)
  case Nil
  then show ?case by simp
next
  case (Cons e seg)
  then have "\<not> is_remove (fst e)" and "find (\<lambda>e. is_remove (fst e)) seg = None"
    by (auto split: if_splits)
  then show ?case
    using Cons.IH [of "Some e"] by (simp add: barrier_report_step)
qed

lemma barrier_report_quiet_end:
  "find (\<lambda>e. is_remove (fst e)) seg = None \<Longrightarrow> barrier_report weblate prev seg = []"
  using barrier_report_quiet [of seg weblate prev "[]"] by simp

lemma syncMaster_health_quiet:
  "syncMaster_health re q = (r, p', t) \<Longrightarrow> find (\<lambda>e. is_remove (fst e)) t = None"
  by (auto simp: syncMaster_health_def step_defs elim!: awaitE split: if_splits)

lemma syncMaster_reconcile_barrier:
  assumes "syncMaster_reconcile weblate env config category p = (r, p', t)"
  shows "barrier_report weblate prev t = []
       \<or> (\<exists>names. barrier_report weblate prev t = [(Some names, Inr names)])"
  using assms unfolding syncMaster_reconcile_def
  by (auto elim!: awaitE dest!: discover_console promise_all_creates syncMaster_health_quiet
        simp: step_defs folded_simps Let_def barrier_report_quiet barrier_report_quiet_end
        split: list.splits prod.splits sum.splits option.splits)

lemma syncMaster_barrier:
  assumes "syncMaster weblate env config p = (r, p', t)"
  shows "barrier_report weblate prev t = []
       \<or> (\<exists>names. barrier_report weblate prev t = [(Some names, Inr names)])"
  using assms unfolding syncMaster_def
  apply (auto elim!: awaitE simp: step_defs
        split: prod.splits sum.splits option.splits if_splits)
  apply (drule syncMaster_reconcile_barrier, auto)+
  done

text \<open>
  What sync-trunk does about the barrier: a run in sync-trunk mode has at most one removal step,
  the event right before it is a task barrier, and the names passed to that barrier are
  the names of all components that the category held when the barrier was issued.
\<close>

lemma sync_trunk_barrier_covers_category:
  assumes "mode config = SYNC_MASTER"
      and "run weblate env config p = (r, p', t)"
  shows "barrier_report weblate None t = []
       \<or> (\<exists>names. barrier_report weblate None t = [(Some names, Inr names)])"
proof -
  from assms(2) obtain t' where
    h: "modeToHandler (mode config) weblate env config p = (r, p', t')"
    and t: "t = (Console (Log ConfigHeading), p) # (Console (Log ConfigJson), p) # t'"
    unfolding run_def by (auto elim!: awaitE simp: step_defs)
  from h assms(1) have "syncMaster weblate env config p = (r, p', t')" by simp
  from syncMaster_barrier [OF this, of "Some (Console (Log ConfigJson), p)"] t
  show ?thesis by simp
qed

lemma uncommented_step:
  "\<not> is_setFailed e \<Longrightarrow> uncommented_failures prev (e # es) = uncommented_failures (Some e) es"
  by (cases e) auto

lemma uncommented_quiet:
  "failures es = [] \<Longrightarrow>
     uncommented_failures prev (es @ rest) =
     uncommented_failures (if es = [] then prev else Some (last es)) rest"
proof (induction es arbitrary: prev)
  case Nil
  then show ?case by simp
next
  case (Cons e es)
  then have "\<not> is_setFailed e" and "failures es = []"
    by (cases e; simp)+
  then show ?case
    using Cons.IH [of "Some e"] by (simp add: uncommented_step)
qed

lemma uncommented_quiet_end:
  "failures es = [] \<Longrightarrow> uncommented_failures prev es = []"
  using uncommented_quiet [of es prev "[]"] by simp

lemma validatePullRequest_health_commented:
  "validatePullRequest_health weblate config category ws re q = (r, p', t) \<Longrightarrow>
     (\<And>m. prev \<noteq> Some (SetFailed m)) \<Longrightarrow>
     uncommented_failures prev (map fst t) = []"
  by (auto simp: validatePullRequest_health_def step_defs elim!: awaitE
        split: if_splits sum.splits prod.splits)

lemma validatePullRequest_reconcile_commented:
  assumes "validatePullRequest_reconcile weblate env config category p = (r, p', t)"
  shows "uncommented_failures prev (map fst t) = []"
  using assms unfolding validatePullRequest_reconcile_def
  by (auto elim!: awaitE dest!: discover_steps promise_all_creates
        simp: step_defs folded_simps Let_def uncommented_quiet uncommented_quiet_end
              validatePullRequest_health_commented
        split: list.splits prod.splits sum.splits option.splits if_splits)

lemma validatePullRequest_commented:
  assumes "validatePullRequest weblate env config p = (r, p', t)"
  shows "uncommented_failures prev (map fst t) = []
       \<or> uncommented_failures prev (map fst t) = [not_found_message config]"
  using assms unfolding validatePullRequest_def
  by (auto elim!: awaitE dest!: validatePullRequest_copy_events
        simp: step_defs folded_simps uncommented_quiet uncommented_quiet_end
              validatePullRequest_reconcile_commented
        split: prod.splits sum.splits option.splits if_splits)

text \<open>
  The other failures of validate-pull-request: every message the run is marked failed
  with was posted as a comment right before, except the message that the trunk category
  was not found.
\<close>

lemma pull_request_failures_commented:
  assumes "mode config = VALIDATE_PULL_REQUEST"
      and "run weblate env config p = (r, p', t)"
  shows "uncommented_failures None (map fst t) = []
       \<or> uncommented_failures None (map fst t) = [not_found_message config]"
proof -
  from assms(2) obtain t' where
    h: "modeToHandler (mode config) weblate env config p = (r, p', t')"
    and t: "t = (Console (Log ConfigHeading), p) # (Console (Log ConfigJson), p) # t'"
    unfolding run_def by (auto elim!: awaitE simp: step_defs)
  from h assms(1) have "validatePullRequest weblate env config p = (r, p', t')" by simp
  from validatePullRequest_commented [OF this, of "Some (Console (Log ConfigJson))"] t
  show ?thesis by simp
qed

end
